theory Spec2Isabelle
  imports Main
begin

section \<open>Data model (share.h, client.h)\<close>

text \<open>
  A pointer to a product slot is the index of the slot in the array
  \<open>prod_tbl.prod\<close>; \<open>None\<close> is the NULL pointer.  The array itself is a store from
  indices to slots, so that the aliasing between the three intrusive lists (they all
  thread through the \<open>p_next\<close> field of the same slots) is visible in the model.
  C \<open>int\<close>, \<open>long\<close> and \<open>time_t\<close> values are modelled as \<open>int\<close>, \<open>size_t\<close> as \<open>nat\<close>;
  the one place where a conversion wraps around (\<open>parse_msghdr\<close>) writes the
  wrap-around out.
\<close>

type_synonym prod_ptr = "nat option"

record prod_info_t =
  seqno :: int
  filename :: string
  wmo_ttaaii :: string
  wmo_cccc :: string
  wmo_ddhhmm :: string
  wmo_bbb :: string
  wmo_nnnxxx :: string
  prod_size :: nat
  ccb_len :: nat
  state :: char
  send_count :: int
  queue_time :: int
  send_time :: int
  priority :: int
  p_next :: prod_ptr

definition STATE_FREE :: char where "STATE_FREE = CHR '' ''"
definition STATE_QUEUED :: char where "STATE_QUEUED = CHR ''Q''"
definition STATE_SENT :: char where "STATE_SENT = CHR ''S''"
definition STATE_ACKED :: char where "STATE_ACKED = CHR ''A''"
definition STATE_NACKED :: char where "STATE_NACKED = CHR ''N''"
definition STATE_RETRY :: char where "STATE_RETRY = CHR ''R''"
definition STATE_FAILED :: char where "STATE_FAILED = CHR ''F''"
definition STATE_DEAD :: char where "STATE_DEAD = CHR ''X''"

definition ACK_OK :: char where "ACK_OK = CHR ''K''"
definition ACK_FAIL :: char where "ACK_FAIL = CHR ''F''"
definition ACK_RETRY :: char where "ACK_RETRY = CHR ''R''"

text \<open>A slot as \<open>calloc\<close> and \<open>memset(p, '\0', sizeof(prod_info_t))\<close> leave it.\<close>

definition zero_prod :: prod_info_t where
  "zero_prod = \<lparr> seqno = 0, filename = [], wmo_ttaaii = [], wmo_cccc = [],
     wmo_ddhhmm = [], wmo_bbb = [], wmo_nnnxxx = [], prod_size = 0, ccb_len = 0,
     state = CHR 0x00, send_count = 0, queue_time = 0, send_time = 0, priority = 0,
     p_next = None \<rparr>"

record prod_list_t =
  count :: int
  p_head :: prod_ptr
  p_tail :: prod_ptr

record prod_tbl_t =
  prod :: "nat \<Rightarrow> prod_info_t"
  free_list :: prod_list_t
  ack_list :: prod_list_t
  retr_list :: prod_list_t

text \<open>The three lists of the table, to pass \<open>&prod_tbl.free_list\<close> and its siblings.\<close>

datatype list_id = FreeL | AckL | RetrL

fun get_list :: "list_id \<Rightarrow> prod_tbl_t \<Rightarrow> prod_list_t" where
  "get_list FreeL t = free_list t"
| "get_list AckL t = ack_list t"
| "get_list RetrL t = retr_list t"

fun set_list :: "list_id \<Rightarrow> prod_list_t \<Rightarrow> prod_tbl_t \<Rightarrow> prod_tbl_t" where
  "set_list FreeL l t = t\<lparr>free_list := l\<rparr>"
| "set_list AckL l t = t\<lparr>ack_list := l\<rparr>"
| "set_list RetrL l t = t\<lparr>retr_list := l\<rparr>"

section \<open>List primitives (client\_send.c)\<close>

text \<open>
  \<open>push_prod(p_list, p_prod)\<close>: every call site passes a non-NULL \<open>p_prod\<close>, so the
  argument is a slot index.  The function returns the updated store and list header.
\<close>

definition push_prod ::
  "(nat \<Rightarrow> prod_info_t) \<Rightarrow> prod_list_t \<Rightarrow> nat \<Rightarrow> (nat \<Rightarrow> prod_info_t) \<times> prod_list_t" where
  "push_prod h l p =
     (let (h1, l1) =
            (case p_tail l of
               Some t \<Rightarrow> (h(t := (h t)\<lparr>p_next := Some p\<rparr>), l)
             | None \<Rightarrow> (h, l\<lparr>p_head := Some p\<rparr>));
          l2 = l1\<lparr>p_tail := Some p\<rparr>;
          h2 = h1(p := (h1 p)\<lparr>p_next := None\<rparr>)
      in (h2, l2\<lparr>count := count l2 + 1\<rparr>))"

text \<open>\<open>pop_prod(p_list)\<close> returns the updated store, the updated header and the result.\<close>

definition pop_prod ::
  "(nat \<Rightarrow> prod_info_t) \<Rightarrow> prod_list_t \<Rightarrow> (nat \<Rightarrow> prod_info_t) \<times> prod_list_t \<times> prod_ptr" where
  "pop_prod h l =
     (case p_head l of
        None \<Rightarrow> (h, l, None)
      | Some p \<Rightarrow>
          (let l1 = l\<lparr>p_head := p_next (h p)\<rparr>;
               l2 = (if p_head l1 = None then l1\<lparr>p_tail := None\<rparr> else l1);
               l3 = l2\<lparr>count := count l2 - 1\<rparr>
           in (h(p := (h p)\<lparr>p_next := None\<rparr>), l3, Some p)))"

definition push_tbl :: "list_id \<Rightarrow> nat \<Rightarrow> prod_tbl_t \<Rightarrow> prod_tbl_t" where
  "push_tbl k p t =
     (let (h, l) = push_prod (prod t) (get_list k t) p
      in set_list k l (t\<lparr>prod := h\<rparr>))"

definition pop_tbl :: "list_id \<Rightarrow> prod_tbl_t \<Rightarrow> prod_tbl_t \<times> prod_ptr" where
  "pop_tbl k t =
     (let (h, l, r) = pop_prod (prod t) (get_list k t)
      in (set_list k l (t\<lparr>prod := h\<rparr>), r))"

section \<open>my\_rename (share.c)\<close>

text \<open>
  The system calls and the two helpers \<open>my_copy\<close> and \<open>my_mkdir\<close> are the environment
  of \<open>my_rename\<close>.  The environment answers the \<open>k\<close>-th call of \<open>rename\<close> with a
  return code and a value of \<open>errno\<close>, and likewise the \<open>my_mkdir\<close> of the \<open>k\<close>-th
  iteration, so an answer may depend on everything that happened before it.
  \<open>my_rename\<close> returns its result together with the calls it made, in order.
  \<open>EXDEV\<close> and \<open>ENOENT\<close> carry their Linux values; nothing below depends on more than
  their being different.
\<close>

definition EXDEV :: int where "EXDEV = 18"
definition ENOENT :: int where "ENOENT = 2"

record rename_env =
  rename_rc :: "nat \<Rightarrow> int"
  rename_errno :: "nat \<Rightarrow> int"
  my_copy_rc :: int
  unlink_rc :: int
  my_mkdir_rc :: "nat \<Rightarrow> int"

datatype syscall = SysRename | SysCopy | SysUnlink | SysMkdir string

text \<open>\<open>strrchr(s, c)\<close>: the index of the last \<open>c\<close> in \<open>s\<close>, if any.\<close>

fun strrchr :: "string \<Rightarrow> char \<Rightarrow> nat option" where
  "strrchr [] c = None"
| "strrchr (x # xs) c =
     (case strrchr xs c of
        Some i \<Rightarrow> Some (Suc i)
      | None \<Rightarrow> if x = c then Some 0 else None)"

text \<open>
  The \<open>while ((rc = rename(source, target)) < 0)\<close> loop, entered for the \<open>k\<close>-th call of
  \<open>rename\<close> with the current \<open>last_errno\<close>.  The function is total: the only branch
  that goes round the loop again is the \<open>ENOENT\<close> branch, which is entered with
  \<open>last_errno \<noteq> ENOENT\<close> and leaves \<open>last_errno = ENOENT\<close>.
\<close>

function my_rename_loop ::
  "rename_env \<Rightarrow> string \<Rightarrow> nat \<Rightarrow> int \<Rightarrow> int \<times> syscall list" where
  "my_rename_loop e target k last_errno =
     (if rename_rc e k < 0 then
        (if rename_errno e k = last_errno then (-1, [SysRename])
         else if rename_errno e k = EXDEV then
           (if my_copy_rc e \<noteq> 0 then (-1, [SysRename, SysCopy])
            else (0, [SysRename, SysCopy, SysUnlink]))
         else if rename_errno e k = ENOENT then
           (case strrchr target (CHR ''/'') of
              Some d \<Rightarrow>
                (if d \<noteq> 0 then
                   (if my_mkdir_rc e k < 0 then (-1, [SysRename, SysMkdir (take d target)])
                    else (let (rc, calls) = my_rename_loop e target (Suc k) (rename_errno e k)
                          in (rc, [SysRename, SysMkdir (take d target)] @ calls)))
                 else (let (rc, calls) = my_rename_loop e target (Suc k) (rename_errno e k)
                       in (rc, SysRename # calls)))
            | None \<Rightarrow>
                (let (rc, calls) = my_rename_loop e target (Suc k) (rename_errno e k)
                 in (rc, SysRename # calls)))
         else (-1, [SysRename]))
      else (0, [SysRename]))"
  by pat_completeness auto
termination
  by (relation "measure (\<lambda>(e, target, k, last_errno). if last_errno = ENOENT then 0 else 1)")
     auto

definition my_rename :: "rename_env \<Rightarrow> string \<Rightarrow> int \<times> syscall list" where
  "my_rename e target = my_rename_loop e target 0 0"

section \<open>Framing codec (share.h, share.c) and header receipt (serv\_recv.c)\<close>

text \<open>
  The wire header is text.  A byte string is a \<open>string\<close>; a C string ends before its
  first NUL byte.  \<open>int\<close> is taken to be at least 32 bits wide and \<open>size_t\<close>, \<open>long\<close>
  and \<open>time_t\<close> 64 bits wide (LP64).
\<close>

definition MSG_HDR_LEN :: nat where "MSG_HDR_LEN = 10"
definition PROD_HDR_LEN :: nat where "PROD_HDR_LEN = 22"
definition MAX_PROD_SIZE :: nat where "MAX_PROD_SIZE = 99999999 - PROD_HDR_LEN"
definition MAX_PROD_SEQNO :: int where "MAX_PROD_SEQNO = 99999"

subsection \<open>sprintf: the conversion \<open>%.Nd\<close>\<close>

definition digit_char :: "nat \<Rightarrow> char" where
  "digit_char d = char_of (48 + d)"

fun dec_digits :: "nat \<Rightarrow> string" where
  "dec_digits n = (if n < 10 then [digit_char n] else dec_digits (n div 10) @ [digit_char (n mod 10)])"

declare dec_digits.simps [simp del]

text \<open>
  \<open>%.Nd\<close> and \<open>%.Nld\<close>: a minus sign for a negative value, then the decimal digits
  of the magnitude, padded with zeros on the left to at least \<open>N\<close> digits.  The precision
  is a minimum: a longer value is printed in full.
\<close>

definition fmt_d_prec :: "nat \<Rightarrow> int \<Rightarrow> string" where
  "fmt_d_prec p x =
     (let ds = dec_digits (nat \<bar>x\<bar>)
      in (if x < 0 then ''-'' else []) @ replicate (p - length ds) (CHR ''0'') @ ds)"

text \<open>
  The text that \<open>sprintf(scratchbuf, "%.8dBI\001\r\r\n%.5d%.10ld\r\r\n", msg_size, seqno,
  queue_time)\<close> writes, with \<open>msg_size = PROD_HDR_LEN + size\<close>.
\<close>

definition header_text :: "prod_info_t \<Rightarrow> string" where
  "header_text p =
     fmt_d_prec 8 (int (PROD_HDR_LEN + prod_size p)) @ ''BI'' @
     [CHR 0x01, CHR 0x0D, CHR 0x0D, CHR 0x0A] @
     fmt_d_prec 5 (seqno p) @ fmt_d_prec 10 (queue_time p) @
     [CHR 0x0D, CHR 0x0D, CHR 0x0A]"

text \<open>
  \<open>format_msghdr(buf, p_prod)\<close> returns its result and the caller's buffer.  The buffer is
  written only by the final \<open>memcpy\<close> of \<open>MSG_HDR_LEN + PROD_HDR_LEN\<close> bytes (the caller
  provides at least that much room).
\<close>

definition format_msghdr :: "string \<Rightarrow> prod_info_t \<Rightarrow> int \<times> string" where
  "format_msghdr buf p =
     (if prod_size p \<le> 0 \<or> prod_size p > MAX_PROD_SIZE then (-1, buf)
      else if seqno p < 0 \<or> seqno p > MAX_PROD_SEQNO then (-1, buf)
      else
        (let scratchbuf = header_text p
         in if length scratchbuf \<noteq> MSG_HDR_LEN + PROD_HDR_LEN then (-1, buf)
            else (int (MSG_HDR_LEN + PROD_HDR_LEN),
                  take (MSG_HDR_LEN + PROD_HDR_LEN) scratchbuf @
                  drop (MSG_HDR_LEN + PROD_HDR_LEN) buf)))"

subsection \<open>sscanf: the conversions \<open>%Nd\<close> and \<open>%Ns\<close>\<close>

definition isspace :: "char \<Rightarrow> bool" where
  "isspace c = (c \<in> {CHR '' '', CHR 0x09, CHR 0x0A, CHR 0x0B, CHR 0x0C, CHR 0x0D})"

definition isdigit :: "char \<Rightarrow> bool" where
  "isdigit c = (48 \<le> (of_char c :: nat) \<and> (of_char c :: nat) \<le> 57)"

definition skip_ws :: "string \<Rightarrow> string" where
  "skip_ws s = dropWhile isspace s"

definition dec_value :: "string \<Rightarrow> nat" where
  "dec_value ds = foldl (\<lambda>a c. 10 * a + (of_char c - 48)) 0 ds"

text \<open>
  \<open>%Nd\<close>: skip white space, read an optional sign and then decimal digits, at most \<open>N\<close>
  characters in all; at least one digit is required.  The result is the value and the
  rest of the input.
\<close>

definition scan_d :: "nat \<Rightarrow> string \<Rightarrow> (int \<times> string) option" where
  "scan_d w s =
     (let s1 = skip_ws s;
          (neg, w1, s2) =
            (case s1 of
               c # r \<Rightarrow> if (c = CHR ''-'' \<or> c = CHR ''+'') \<and> 0 < w
                        then (c = CHR ''-'', w - 1, r) else (False, w, s1)
             | [] \<Rightarrow> (False, w, s1));
          ds = takeWhile isdigit (take w1 s2)
      in if ds = [] then None
         else Some ((if neg then - int (dec_value ds) else int (dec_value ds)),
                    drop (length ds) s2))"

text \<open>\<open>%Ns\<close>: skip white space, then read up to \<open>N\<close> characters that are not white space.\<close>

definition scan_s :: "nat \<Rightarrow> string \<Rightarrow> (string \<times> string) option" where
  "scan_s w s =
     (let s1 = skip_ws s;
          tok = takeWhile (\<lambda>c. \<not> isspace c) (take w s1)
      in if tok = [] then None else Some (tok, drop (length tok) s1))"

definition match_char :: "char \<Rightarrow> string \<Rightarrow> string option" where
  "match_char c s = (case s of x # r \<Rightarrow> if x = c then Some r else None | [] \<Rightarrow> None)"

definition cstring :: "string \<Rightarrow> string" where
  "cstring b = takeWhile (\<lambda>c. c \<noteq> CHR 0x00) b"

text \<open>
  \<open>sscanf(scanbuf, "%8d%2s\001\r\r\n%5d%10ld\r\r\n", &msg_size, anbi, &p_prod->seqno,
  &p_prod->queue_time)\<close>: the number of conversions made, the value of \<open>msg_size\<close> and
  the product with the fields stored so far.  \<open>\r\r\n\<close> in a format is white space and
  matches any amount of white space, also none.  The caller only compares the number
  with 4, so an input failure before the first conversion (\<open>EOF\<close>) is counted as 0.
\<close>

definition sscanf_msghdr :: "string \<Rightarrow> prod_info_t \<Rightarrow> int \<times> int \<times> prod_info_t" where
  "sscanf_msghdr s p =
     (case scan_d 8 s of
        None \<Rightarrow> (0, 0, p)
      | Some (msg_size, s1) \<Rightarrow>
          (case scan_s 2 s1 of
             None \<Rightarrow> (1, msg_size, p)
           | Some (anbi, s2) \<Rightarrow>
               (case match_char (CHR 0x01) s2 of
                  None \<Rightarrow> (2, msg_size, p)
                | Some s3 \<Rightarrow>
                    (case scan_d 5 (skip_ws s3) of
                       None \<Rightarrow> (2, msg_size, p)
                     | Some (sq, s4) \<Rightarrow>
                         (case scan_d 10 s4 of
                            None \<Rightarrow> (3, msg_size, p\<lparr>seqno := sq\<rparr>)
                          | Some (qt, s5) \<Rightarrow>
                              (4, msg_size, p\<lparr>seqno := sq, queue_time := qt\<rparr>))))))"

text \<open>
  \<open>parse_msghdr(buf, buflen, p_prod)\<close>.  \<open>p_prod->size = msg_size - PROD_HDR_LEN\<close>
  converts an \<open>int\<close> to \<open>size_t\<close>, so a negative difference wraps around.
\<close>

definition parse_msghdr :: "string \<Rightarrow> nat \<Rightarrow> prod_info_t \<Rightarrow> int \<times> prod_info_t" where
  "parse_msghdr buf buflen p =
     (if buflen < MSG_HDR_LEN + PROD_HDR_LEN then (-1, p)
      else
        (let scanbuf = cstring (take (MSG_HDR_LEN + PROD_HDR_LEN) buf);
             (n, msg_size, p1) = sscanf_msghdr scanbuf p
         in if n \<noteq> 4 then (-1, p1)
            else (int (MSG_HDR_LEN + PROD_HDR_LEN),
                  p1\<lparr>prod_size := nat ((msg_size - int PROD_HDR_LEN) mod 2 ^ 64)\<rparr>)))"


text \<open>The two parts of the header text: 10 and 22 bytes when the fields fit.\<close>

definition msg_header :: "prod_info_t \<Rightarrow> string" where
  "msg_header p = fmt_d_prec 8 (int (PROD_HDR_LEN + prod_size p)) @ ''BI''"

definition prod_header :: "prod_info_t \<Rightarrow> string" where
  "prod_header p =
     [CHR 0x01, CHR 0x0D, CHR 0x0D, CHR 0x0A] @
     fmt_d_prec 5 (seqno p) @ fmt_d_prec 10 (queue_time p) @
     [CHR 0x0D, CHR 0x0D, CHR 0x0A]"

text \<open>
  \<open>recv_msghdr(sock_fd, seqno, p_prod)\<close>.  What \<open>recv_block\<close> returned and left in
  \<open>recvbuf\<close> is the environment's answer \<open>blk\<close>.
\<close>

definition recv_msghdr ::
  "int \<times> string \<Rightarrow> int \<Rightarrow> prod_info_t \<Rightarrow> int \<times> prod_info_t" where
  "recv_msghdr blk seqno_exp p =
     (case blk of (bytes_rcvd, recvbuf) \<Rightarrow>
        if bytes_rcvd \<le> 0 then (-1, p)
        else
          (case parse_msghdr recvbuf (nat bytes_rcvd) p of (rc, p1) \<Rightarrow>
             if rc < 0 then (-1, p1)
             else if seqno p1 \<noteq> seqno_exp \<and> seqno p1 \<noteq> 0 then (-1, p1)
             else if prod_size p1 \<le> 0 \<or> prod_size p1 > MAX_PROD_SIZE then (-1, p1)
             else (0, p1)))"

section \<open>Input queue (client\_queue.c)\<close>

text \<open>
  The options of \<open>ClientOpt\<close> that the modelled code reads, and the defaults that
  \<open>client_main.c\<close> gives them (\<open>queue_ttl\<close> and \<open>connect_wmo\<close> are zero until set).
\<close>

record client_opt =
  window_size :: int
  max_queue_len :: int
  connect_wmo :: "string option"
  queue_ttl :: int
  timeout :: int
  poll_interval :: int

definition dflt_opt :: client_opt where
  "dflt_opt = \<lparr>window_size = 100, max_queue_len = 2000, connect_wmo = None, queue_ttl = 0,
     timeout = 300, poll_interval = 3\<rparr>"

text \<open>
  The file system is the environment of the poller: each input directory is either
  not openable or a list of entries in \<open>readdir\<close> order; each entry has a name, the result
  of \<open>stat\<close> on its path (\<open>None\<close> when \<open>stat\<close> fails) and the value of \<open>time(NULL)\<close> read
  when the entry is examined.  The mode bits carry their usual POSIX values.
\<close>

record stat_t =
  st_mode :: nat
  st_size :: nat
  st_mtime :: int

record dirent =
  d_name :: string
  d_stat :: "stat_t option"
  d_time :: int

record poll_dir =
  dir_name :: string
  dir_entries :: "dirent list option"

definition S_IFREG :: nat where "S_IFREG = 32768"
definition S_IFLNK :: nat where "S_IFLNK = 40960"
definition PERM_MASK :: nat where "PERM_MASK = 292"
definition A_FEW_SECONDS :: int where "A_FEW_SECONDS = 3"

text \<open>
  \<open>check_window\<close> walks the awaiting-ack and the retry list through \<open>p_next\<close>.  On a
  cyclic list the walk does not return; that is the value \<open>None\<close>.
\<close>

partial_function (option) chain_has ::
  "(nat \<Rightarrow> prod_info_t) \<Rightarrow> prod_ptr \<Rightarrow> string \<Rightarrow> bool option" where
  "chain_has h p f =
     (case p of
        None \<Rightarrow> Some False
      | Some x \<Rightarrow> if filename (h x) = f then Some True else chain_has h (p_next (h x)) f)"

definition check_window :: "prod_tbl_t \<Rightarrow> string \<Rightarrow> int option" where
  "check_window t f =
     (case chain_has (prod t) (p_head (ack_list t)) f of
        None \<Rightarrow> None
      | Some True \<Rightarrow> Some 1
      | Some False \<Rightarrow>
          (case chain_has (prod t) (p_head (retr_list t)) f of
             None \<Rightarrow> None
           | Some True \<Rightarrow> Some 1
           | Some False \<Rightarrow> Some 0))"

text \<open>
  The two polling loops of \<open>get_next_file\<close>.  \<open>poll_entries\<close> is the \<open>while (readdir)\<close>
  loop over one directory: every \<open>continue\<close> goes on with the next entry, and the \<open>break\<close>
  of the queue-length test ends this loop only.  \<open>poll_dirs\<close> is the \<open>for\<close> loop over
  \<open>indir_list\<close>, which goes on with the next directory after the inner loop has ended
  either way.  \<open>qcnt\<close> is the length of \<open>queue\<close>; \<open>realloc_ok n\<close> says whether the
  \<open>realloc\<close> to \<open>n\<close> entries succeeds.
\<close>

datatype poll_error = ReallocFailed

fun poll_entries ::
  "client_opt \<Rightarrow> (nat \<Rightarrow> bool) \<Rightarrow> prod_tbl_t \<Rightarrow> string \<Rightarrow> int \<Rightarrow> dirent list \<Rightarrow>
   prod_info_t list \<Rightarrow> (poll_error + prod_info_t list) option" where
  "poll_entries opt realloc_ok t dir prio [] queue = Some (Inr queue)"
| "poll_entries opt realloc_ok t dir prio (d # ds) queue =
     (if take 1 (d_name d) = ''.'' then poll_entries opt realloc_ok t dir prio ds queue
      else
        (let pathbuf = dir @ ''/'' @ d_name d in
         case d_stat d of
           None \<Rightarrow> poll_entries opt realloc_ok t dir prio ds queue
         | Some st \<Rightarrow>
             if and (st_mode st) (or S_IFREG S_IFLNK) = 0
               then poll_entries opt realloc_ok t dir prio ds queue
             else if and (st_mode st) PERM_MASK = 0
               then poll_entries opt realloc_ok t dir prio ds queue
             else if st_size st = 0 \<and> st_mtime st > d_time d - A_FEW_SECONDS
               then poll_entries opt realloc_ok t dir prio ds queue
             else
               (case check_window t pathbuf of
                  None \<Rightarrow> None
                | Some w \<Rightarrow>
                    if w \<noteq> 0 then poll_entries opt realloc_ok t dir prio ds queue
                    else
                      (let qcnt = length queue + 1 in
                       if \<not> realloc_ok qcnt then Some (Inl ReallocFailed)
                       else
                         (let queue' = queue @
                                [zero_prod\<lparr>filename := pathbuf, queue_time := st_mtime st,
                                   prod_size := st_size st, priority := prio\<rparr>]
                          in if max_queue_len opt > 0 \<and> int qcnt \<ge> max_queue_len opt
                             then Some (Inr queue')
                             else poll_entries opt realloc_ok t dir prio ds queue')))))"

fun poll_dirs ::
  "client_opt \<Rightarrow> (nat \<Rightarrow> bool) \<Rightarrow> prod_tbl_t \<Rightarrow> poll_dir list \<Rightarrow> int \<Rightarrow>
   prod_info_t list \<Rightarrow> (poll_error + prod_info_t list) option" where
  "poll_dirs opt realloc_ok t [] prio queue = Some (Inr queue)"
| "poll_dirs opt realloc_ok t (d # ds) prio queue =
     (case dir_entries d of
        None \<Rightarrow> poll_dirs opt realloc_ok t ds (prio - 1) queue
      | Some es \<Rightarrow>
          (case poll_entries opt realloc_ok t (dir_name d) prio es queue of
             None \<Rightarrow> None
           | Some (Inl e) \<Rightarrow> Some (Inl e)
           | Some (Inr queue') \<Rightarrow> poll_dirs opt realloc_ok t ds (prio - 1) queue'))"

definition poll_queue ::
  "client_opt \<Rightarrow> (nat \<Rightarrow> bool) \<Rightarrow> prod_tbl_t \<Rightarrow> poll_dir list \<Rightarrow>
   (poll_error + prod_info_t list) option" where
  "poll_queue opt realloc_ok t indir_list =
     poll_dirs opt realloc_ok t indir_list (int (length indir_list) - 1) []"

definition compare_items :: "prod_info_t \<Rightarrow> prod_info_t \<Rightarrow> int" where
  "compare_items p_pi1 p_pi2 =
     (if priority p_pi1 < priority p_pi2 then 1
      else if priority p_pi1 > priority p_pi2 then -1
      else if queue_time p_pi1 > queue_time p_pi2 then 1
      else if queue_time p_pi1 < queue_time p_pi2 then -1
      else 0)"

text \<open>
  Modelled from the spec: \<open>qsort\<close> is the C library's function and its code is not part
  of the sources.  ISO C (7.22.5.2) only says that the array ends up in ascending order of
  the comparison function; the spec takes the sort to be stable ("Stable-sort by
  (priority desc, mtime asc)").  So \<open>qsort\<close> is a stable sort that orders by the comparison
  function it is passed: the elements are inserted one by one, the last first, each before
  the first element it does not compare greater than.  Which stable sort it is does not
  matter to the result: a stable sort leaves no choice.
\<close>

fun qsort_insert :: "('a \<Rightarrow> 'a \<Rightarrow> int) \<Rightarrow> 'a \<Rightarrow> 'a list \<Rightarrow> 'a list" where
  "qsort_insert cmp x [] = [x]"
| "qsort_insert cmp x (y # ys) =
     (if cmp x y \<le> 0 then x # y # ys else y # qsort_insert cmp x ys)"

definition qsort :: "('a \<Rightarrow> 'a \<Rightarrow> int) \<Rightarrow> 'a list \<Rightarrow> 'a list" where
  "qsort cmp xs = foldr (qsort_insert cmp) xs []"

text \<open>\<open>if (qcnt > 1) qsort(queue, qcnt, sizeof(prod_info_t), compare_items)\<close>.\<close>

definition sort_queue :: "prod_info_t list \<Rightarrow> prod_info_t list" where
  "sort_queue queue = (if 1 < length queue then qsort compare_items queue else queue)"

text \<open>Concrete inputs used in the examples below.\<close>

definition empty_tbl :: prod_tbl_t where
  "empty_tbl = \<lparr>prod = (\<lambda>_. zero_prod),
     free_list = \<lparr>count = 0, p_head = None, p_tail = None\<rparr>,
     ack_list = \<lparr>count = 0, p_head = None, p_tail = None\<rparr>,
     retr_list = \<lparr>count = 0, p_head = None, p_tail = None\<rparr>\<rparr>"

definition file_a :: dirent where
  "file_a = \<lparr>d_name = ''a'', d_stat = Some \<lparr>st_mode = 33188, st_size = 10, st_mtime = 100\<rparr>,
     d_time = 200\<rparr>"

definition file_b :: dirent where
  "file_b = \<lparr>d_name = ''b'', d_stat = Some \<lparr>st_mode = 33188, st_size = 10, st_mtime = 100\<rparr>,
     d_time = 200\<rparr>"

definition file_c :: dirent where
  "file_c = \<lparr>d_name = ''c'', d_stat = Some \<lparr>st_mode = 33188, st_size = 10, st_mtime = 50\<rparr>,
     d_time = 200\<rparr>"

definition three_dirs :: "poll_dir list" where
  "three_dirs = [\<lparr>dir_name = ''/gone'', dir_entries = None\<rparr>,
               \<lparr>dir_name = ''/in'', dir_entries = Some [file_a, file_b, file_c]\<rparr>,
               \<lparr>dir_name = ''/low'', dir_entries = Some [file_b]\<rparr>]"

definition item :: "string \<Rightarrow> int \<Rightarrow> int \<Rightarrow> prod_info_t" where
  "item f t p = zero_prod\<lparr>filename := f, queue_time := t, prod_size := 10, priority := p\<rparr>"
section \<open>The send loop (client_send.c)\<close>

definition RECOVERY_SLEEP :: int where "RECOVERY_SLEEP = 20"

definition empty_list :: prod_list_t where
  "empty_list = \<lparr>count = 0, p_head = None, p_tail = None\<rparr>"

text \<open>An assignment to fields of the slot \<open>prod[p]\<close>.\<close>

definition upd_slot :: "nat \<Rightarrow> (prod_info_t \<Rightarrow> prod_info_t) \<Rightarrow> prod_tbl_t \<Rightarrow> prod_tbl_t" where
  "upd_slot p f t = t\<lparr>prod := (prod t)(p := f (prod t p))\<rparr>"

text \<open>
  \<open>rebuild_lists(p_tbl)\<close>: the three headers are cleared, then the \<open>for\<close> loop over the
  \<open>window_size\<close> slots clears each slot's \<open>p_next\<close> and pushes the slot by its state.
\<close>

definition rebuild_slot :: "nat \<Rightarrow> prod_tbl_t \<Rightarrow> prod_tbl_t" where
  "rebuild_slot n t =
     (let t1 = upd_slot n (\<lambda>s. s\<lparr>p_next := None\<rparr>) t;
          st = state (prod t1 n)
      in if st = STATE_QUEUED \<or> st = STATE_RETRY then push_tbl RetrL n t1
         else if st = STATE_SENT then push_tbl AckL n t1
         else push_tbl FreeL n t1)"

definition rebuild_lists :: "client_opt \<Rightarrow> prod_tbl_t \<Rightarrow> prod_tbl_t" where
  "rebuild_lists opt t =
     fold rebuild_slot [0..<nat (window_size opt)]
       (t\<lparr>free_list := empty_list, ack_list := empty_list, retr_list := empty_list\<rparr>)"

text \<open>
  The flags of the global \<open>Flags\<close>, as a set.  Signal handlers only ever set flags
  (\<open>client_main.c\<close>); the flags they raise while a step runs are part of the step's
  environment.
\<close>

datatype flag = SHUTDOWN_FLAG | DISCONNECT_FLAG | NOPEER_FLAG

text \<open>
  What ends the process (no handler is installed for \<open>SIGSEGV\<close>): \<open>p_prod->send_count\<close>
  with a NULL \<open>p_prod\<close>, and the head of an empty list dereferenced.
\<close>

datatype fault = NullPointer

text \<open>The dispositions made, by slot: calls of \<open>finish_send\<close>, \<open>abort_send\<close>, \<open>retry_send\<close>.\<close>

datatype event = FinishSend nat | AbortSend nat | RetrySend nat

text \<open>
  The loop is a machine that takes one step per block of \<open>poll_and_send\<close>; the label
  says which block is next.  The two inner loops (\<open>AtRequeue\<close>, \<open>AtAckLoop\<close>) take one
  step per test and iteration.
\<close>

datatype label =
  AtWhile | AtConnect | AtRequeue | AtAcquire | AtTtl | AtSend | AtAckReady | AtAckLoop
  | AtSleep | AtExit

text \<open>
  The variables of \<open>poll_and_send\<close> and the globals it shares with its callees.
  \<open>loop_i\<close> is the variable \<open>i\<close>.  Logging, the statistics macros (compiled out) and the
  rotation through \<open>host_list\<close> are left out: they write none of these variables.
\<close>

record send_state =
  pc :: label
  sock_fd :: int
  prod_tbl :: prod_tbl_t
  p_prod :: prod_ptr
  p_connect :: prod_ptr
  loop_i :: int
  ack_ready :: int
  wait_time :: int
  connect_failures :: int
  input_failures :: int
  queue_len :: int
  Flags :: "flag set"
  ProdSeqno :: int
  events :: "event list"

text \<open>
  The environment of one step: the flags raised by signals, and the answers of the
  calls that do input and output.  \<open>get_next_file\<close>, \<open>send_prod\<close>, \<open>check_for_ack\<close>,
  \<open>recv_ack\<close>, \<open>connect_to_server\<close> and the renames of \<open>finish_send\<close> and \<open>abort_send\<close>
  are taken by their effect on the caller: any return value and any new contents of
  the fields they may write.  None of them writes a \<open>p_next\<close> or a list header.
\<close>

record env =
  signals :: "flag set"
  now :: int
  mkstemp_res :: "string option"
  fdopen_ok :: bool
  conn_size :: nat
  connect_res :: int
  next_len :: int
  next_filename :: string
  next_time :: int
  next_size :: nat
  next_priority :: int
  send_rc :: int
  send_slot :: prod_info_t
  send_flags :: "flag set"
  send_seqno :: int
  check_res :: int
  recv_rc :: int
  recv_code :: char
  recv_flags :: "flag set"
  rename_res :: "string option"

text \<open>
  \<open>create_conn_msg(p_tbl)\<close>.  \<open>mkstemp_res\<close> is the name of the file made, \<open>None\<close> when
  \<open>mkstemp\<close> fails.
\<close>

definition create_conn_msg :: "client_opt \<Rightarrow> env \<Rightarrow> prod_tbl_t \<Rightarrow> prod_tbl_t \<times> prod_ptr" where
  "create_conn_msg opt e t =
     (case pop_tbl FreeL t of
        (t1, None) \<Rightarrow> (rebuild_lists opt t1, None)
      | (t1, Some p) \<Rightarrow>
          (case mkstemp_res e of
             None \<Rightarrow>
               (push_tbl FreeL p
                  (upd_slot p (\<lambda>_. zero_prod\<lparr>filename := ''/tmp/connXXXXXX''\<rparr>) t1), None)
           | Some f \<Rightarrow>
               if \<not> fdopen_ok e
               then (push_tbl FreeL p (upd_slot p (\<lambda>_. zero_prod\<lparr>filename := f\<rparr>) t1), None)
               else (upd_slot p (\<lambda>_. zero_prod\<lparr>filename := f, prod_size := conn_size e,
                                   queue_time := now e\<rparr>) t1,
                     Some p)))"

text \<open>\<open>disconnect_from_server\<close>, on \<open>Flags\<close>.\<close>

definition disconnect_flags :: "flag set \<Rightarrow> flag set" where
  "disconnect_flags F =
     (if NOPEER_FLAG \<notin> F then F else F - {NOPEER_FLAG}) - {DISCONNECT_FLAG}"

text \<open>\<open>finish_send\<close>, \<open>abort_send\<close> and \<open>retry_send\<close> on the product table and the log.\<close>

definition disposition ::
  "(nat \<Rightarrow> event) \<Rightarrow> env \<Rightarrow> nat \<Rightarrow> send_state \<Rightarrow> send_state" where
  "disposition ev e p s =
     s\<lparr>prod_tbl :=
          (case rename_res e of
             None \<Rightarrow> prod_tbl s
           | Some f \<Rightarrow> upd_slot p (\<lambda>x. x\<lparr>filename := f\<rparr>) (prod_tbl s)),
        events := events s @ [ev p]\<rparr>"

definition retry_send :: "nat \<Rightarrow> send_state \<Rightarrow> send_state" where
  "retry_send p s = s\<lparr>events := events s @ [RetrySend p]\<rparr>"

text \<open>\<open>TIMEOUT_TIME(p)\<close>.\<close>

definition TIMEOUT_TIME :: "client_opt \<Rightarrow> env \<Rightarrow> prod_info_t \<Rightarrow> int" where
  "TIMEOUT_TIME opt e p = send_time p + timeout opt - now e"

text \<open>
  \<open>prod_tbl.prod[i].state = STATE_FREE\<close> in the ack switch: \<open>i\<close> is whatever the last
  \<open>for\<close> loop left in it.  Both loops count up from 0, so \<open>i\<close> is never negative; it is
  \<open>window_size\<close> after the initial loop and after a reconnect that re-queued \<open>window_size\<close>
  products.  The assignment then writes past the end of the array, and the loop goes on.
  The store has a cell for every index, those from \<open>window_size\<close> on standing for the
  memory behind the array: the write is kept there, and no slot of the pool and no list
  header is touched.
\<close>

definition free_slot_i :: "send_state \<Rightarrow> send_state" where
  "free_slot_i s =
     s\<lparr>prod_tbl := upd_slot (nat (loop_i s)) (\<lambda>x. x\<lparr>state := STATE_FREE\<rparr>) (prod_tbl s)\<rparr>"

text \<open>The \<open>switch (ack_code)\<close> for the popped product \<open>p_ack\<close>, lines 369 to 410.\<close>

definition ack_switch :: "client_opt \<Rightarrow> env \<Rightarrow> nat \<Rightarrow> send_state \<Rightarrow> send_state" where
  "ack_switch opt e p_ack s =
     (if recv_code e = ACK_OK then
        (let s1 = free_slot_i
                (disposition FinishSend e p_ack
                   (s\<lparr>prod_tbl := upd_slot p_ack (\<lambda>x. x\<lparr>state := STATE_ACKED\<rparr>) (prod_tbl s)\<rparr>))
         in s1\<lparr>prod_tbl := push_tbl FreeL p_ack (prod_tbl s1)\<rparr>)
      else if recv_code e = ACK_FAIL then
        (let s1 = free_slot_i
                (disposition AbortSend e p_ack
                   (s\<lparr>prod_tbl := upd_slot p_ack (\<lambda>x. x\<lparr>state := STATE_NACKED\<rparr>) (prod_tbl s)\<rparr>))
         in s1\<lparr>prod_tbl := push_tbl FreeL p_ack (prod_tbl s1)\<rparr>)
      else if recv_code e = ACK_RETRY then
        (if Some p_ack = p_connect s then
           (let s1 = free_slot_i s
            in s1\<lparr>prod_tbl := push_tbl FreeL p_ack (prod_tbl s1)\<rparr>)
         else
           (let s1 = retry_send p_ack
                  (s\<lparr>prod_tbl := upd_slot p_ack (\<lambda>x. x\<lparr>state := STATE_RETRY\<rparr>) (prod_tbl s)\<rparr>)
            in s1\<lparr>prod_tbl := push_tbl RetrL p_ack (prod_tbl s1)\<rparr>))
      else
        s\<lparr>ack_ready := -1,
          prod_tbl := push_tbl AckL p_ack (prod_tbl s),
          Flags := insert DISCONNECT_FLAG (Flags s)\<rparr>)"

text \<open>Lines 162 to 177: the loop test and the disconnect check; after the loop, the clean-up.\<close>

definition step_while :: "client_opt \<Rightarrow> env \<Rightarrow> send_state \<Rightarrow> fault + send_state" where
  "step_while opt e s =
     (if SHUTDOWN_FLAG \<in> Flags s then
        Inr (if sock_fd s \<ge> 0
             then s\<lparr>Flags := disconnect_flags (Flags s), sock_fd := -1, pc := AtExit\<rparr>
             else s\<lparr>pc := AtExit\<rparr>)
      else if sock_fd s \<ge> 0 \<and> DISCONNECT_FLAG \<in> Flags s then
        (let s1 = s\<lparr>Flags := disconnect_flags (Flags s), sock_fd := -1\<rparr>
         in if connect_wmo opt \<noteq> None then
              (let t1 = (case p_prod s1 of
                           Some p \<Rightarrow> if p_prod s1 \<noteq> p_connect s1
                                     then push_tbl RetrL p (prod_tbl s1) else prod_tbl s1
                         | None \<Rightarrow> prod_tbl s1);
                   (t2, c) = create_conn_msg opt e t1
               in Inr (s1\<lparr>prod_tbl := t2, p_prod := c, p_connect := c, pc := AtConnect\<rparr>))
            else Inr (s1\<lparr>pc := AtConnect\<rparr>))
      else Inr (s\<lparr>pc := AtConnect\<rparr>))"

text \<open>Lines 180 to 197: connect when not connected; \<open>connect_to_server\<close> resets \<open>ProdSeqno\<close>.\<close>

definition step_connect :: "client_opt \<Rightarrow> env \<Rightarrow> send_state \<Rightarrow> fault + send_state" where
  "step_connect opt e s =
     (if sock_fd s < 0 then
        (if connect_res e < 0
         then Inr (s\<lparr>sock_fd := connect_res e, connect_failures := connect_failures s + 1,
                     pc := AtAcquire\<rparr>)
         else Inr (s\<lparr>sock_fd := connect_res e, ProdSeqno := 0, loop_i := 0, pc := AtRequeue\<rparr>))
      else Inr (s\<lparr>pc := AtAcquire\<rparr>))"

text \<open>
  Lines 198 to 224: one test and iteration of
  \<open>for (i = 0; prod_tbl.ack_list.count > 0; i++)\<close>; every \<open>continue\<close> runs the \<open>i++\<close>.
\<close>

definition step_requeue :: "client_opt \<Rightarrow> env \<Rightarrow> send_state \<Rightarrow> fault + send_state" where
  "step_requeue opt e s =
     (if count (ack_list (prod_tbl s)) > 0 then
        (case pop_tbl AckL (prod_tbl s) of
           (t1, None) \<Rightarrow>
             Inr (s\<lparr>prod_tbl := rebuild_lists opt t1, loop_i := loop_i s + 1\<rparr>)
         | (t1, Some p_retr) \<Rightarrow>
             if Some p_retr = p_connect s then
               Inr (s\<lparr>prod_tbl := t1, loop_i := loop_i s + 1\<rparr>)
             else if loop_i s > 0 then
               (case p_prod s of
                  None \<Rightarrow> Inl NullPointer
                | Some q \<Rightarrow>
                    (let t2 = (if send_count (prod t1 q) > 0
                               then upd_slot q (\<lambda>x. x\<lparr>send_count := send_count x - 1\<rparr>) t1
                               else t1)
                     in Inr (s\<lparr>prod_tbl := push_tbl RetrL p_retr t2, loop_i := loop_i s + 1\<rparr>)))
             else Inr (s\<lparr>prod_tbl := push_tbl RetrL p_retr t1, loop_i := loop_i s + 1\<rparr>))
      else Inr (s\<lparr>connect_failures := 0, pc := AtAcquire\<rparr>))"

text \<open>
  Lines 229 to 278: get the next product.  \<open>get_next_file\<close> copies a queue entry (zeroed
  but for its four fields) over the slot when it returns a positive length.
\<close>

definition step_acquire :: "client_opt \<Rightarrow> env \<Rightarrow> send_state \<Rightarrow> fault + send_state" where
  "step_acquire opt e s =
     (if p_prod s = None then
        (if count (ack_list (prod_tbl s)) < window_size opt then
           (if count (retr_list (prod_tbl s)) > 0 then
              (case pop_tbl RetrL (prod_tbl s) of
                 (t1, None) \<Rightarrow>
                   Inr (s\<lparr>prod_tbl := rebuild_lists opt t1, p_prod := None, pc := AtTtl\<rparr>)
               | (t1, Some p) \<Rightarrow> Inr (s\<lparr>prod_tbl := t1, p_prod := Some p, pc := AtTtl\<rparr>))
            else
              (case pop_tbl FreeL (prod_tbl s) of
                 (t1, None) \<Rightarrow>
                   Inr (s\<lparr>prod_tbl := rebuild_lists opt t1, p_prod := None, pc := AtWhile\<rparr>)
               | (t1, Some p) \<Rightarrow>
                   if next_len e < 0 then
                     Inr (s\<lparr>prod_tbl := t1, p_prod := Some p, queue_len := next_len e,
                            input_failures := input_failures s + 1, pc := AtTtl\<rparr>)
                   else if next_len e > 0 then
                     Inr (s\<lparr>prod_tbl :=
                              upd_slot p
                                (\<lambda>_. zero_prod\<lparr>filename := next_filename e,
                                       queue_time := next_time e, prod_size := next_size e,
                                       priority := next_priority e, state := STATE_QUEUED\<rparr>) t1,
                            p_prod := Some p, queue_len := next_len e, input_failures := 0,
                            pc := AtTtl\<rparr>)
                   else
                     Inr (s\<lparr>prod_tbl := push_tbl FreeL p t1, p_prod := None,
                            queue_len := next_len e, input_failures := 0, pc := AtTtl\<rparr>)))
         else if count (ack_list (prod_tbl s)) = window_size opt then Inr (s\<lparr>pc := AtTtl\<rparr>)
         else Inr (s\<lparr>prod_tbl := rebuild_lists opt (prod_tbl s), pc := AtTtl\<rparr>))
      else Inr (s\<lparr>pc := AtTtl\<rparr>))"

text \<open>Lines 281 to 296: the time-to-live check.\<close>

definition step_ttl :: "client_opt \<Rightarrow> env \<Rightarrow> send_state \<Rightarrow> fault + send_state" where
  "step_ttl opt e s =
     (case p_prod s of
        Some p \<Rightarrow>
          if queue_ttl opt > 0 \<and> now e > queue_time (prod (prod_tbl s) p) + queue_ttl opt then
            (let s1 = disposition AbortSend e p
                   (s\<lparr>prod_tbl := upd_slot p (\<lambda>x. x\<lparr>state := STATE_DEAD\<rparr>) (prod_tbl s)\<rparr>)
             in Inr (s1\<lparr>prod_tbl := push_tbl FreeL p (prod_tbl s1), p_prod := None, pc := AtSend\<rparr>))
          else Inr (s\<lparr>pc := AtSend\<rparr>)
      | None \<Rightarrow> Inr (s\<lparr>pc := AtSend\<rparr>))"

text \<open>
  Lines 299 to 328: send the product.  \<open>send_prod\<close> writes fields of the slot other than
  \<open>p_next\<close>, raises flags and advances \<open>ProdSeqno\<close>.
\<close>

definition step_send :: "client_opt \<Rightarrow> env \<Rightarrow> send_state \<Rightarrow> fault + send_state" where
  "step_send opt e s =
     (case p_prod s of
        Some p \<Rightarrow>
          if sock_fd s \<ge> 0 then
            (let s1 = s\<lparr>prod_tbl := upd_slot p (\<lambda>x. (send_slot e)\<lparr>p_next := p_next x\<rparr>) (prod_tbl s),
                        Flags := Flags s \<union> send_flags e, ProdSeqno := send_seqno e\<rparr>
             in if send_rc e = 0 then
                  Inr (s1\<lparr>prod_tbl := push_tbl AckL p (prod_tbl s1), p_prod := None,
                          pc := AtAckReady\<rparr>)
                else if state (prod (prod_tbl s1) p) = STATE_FAILED then
                  (let s2 = disposition AbortSend e p s1
                   in Inr (s2\<lparr>prod_tbl := push_tbl FreeL p (prod_tbl s2), p_prod := None,
                              pc := AtAckReady\<rparr>))
                else Inr (s1\<lparr>pc := AtAckReady\<rparr>))
          else Inr (s\<lparr>pc := AtAckReady\<rparr>)
      | None \<Rightarrow> Inr (s\<lparr>pc := AtAckReady\<rparr>))"

text \<open>Line 331.\<close>

definition step_ack_ready :: "client_opt \<Rightarrow> env \<Rightarrow> send_state \<Rightarrow> fault + send_state" where
  "step_ack_ready opt e s =
     Inr (s\<lparr>ack_ready := count (ack_list (prod_tbl s)), pc := AtAckLoop\<rparr>)"

text \<open>
  Lines 334 to 425: one test and iteration of the ack-reading loop.  \<open>recv_ack\<close> may raise
  flags; it stores the code only when it returns 0.
\<close>

definition step_ack_loop :: "client_opt \<Rightarrow> env \<Rightarrow> send_state \<Rightarrow> fault + send_state" where
  "step_ack_loop opt e s =
     (case p_head (ack_list (prod_tbl s)) of
        Some h \<Rightarrow>
          if sock_fd s \<ge> 0 \<and> ack_ready s > 0 then
            (let s1 = s\<lparr>wait_time :=
                         (if count (ack_list (prod_tbl s)) = window_size opt
                          then (if TIMEOUT_TIME opt e (prod (prod_tbl s) h) < 0 then 0
                                else TIMEOUT_TIME opt e (prod (prod_tbl s) h))
                          else 0),
                        ack_ready := check_res e\<rparr>
             in if ack_ready s1 > 0 then
                  (case pop_tbl AckL (prod_tbl s1) of
                     (t1, None) \<Rightarrow> Inr (s1\<lparr>prod_tbl := rebuild_lists opt t1\<rparr>)
                   | (t1, Some p_ack) \<Rightarrow>
                       (let s2 = s1\<lparr>prod_tbl := t1, Flags := Flags s1 \<union> recv_flags e\<rparr>
                        in if recv_rc e < 0 then
                             Inr (s2\<lparr>ack_ready := -1,
                                    Flags := insert DISCONNECT_FLAG (Flags s2),
                                    prod_tbl := push_tbl AckL p_ack (prod_tbl s2),
                                    pc := AtSleep\<rparr>)
                           else
                             (let s3 = ack_switch opt e p_ack s2
                              in Inr (if Some p_ack = p_connect s3
                                      then s3\<lparr>p_connect := None\<rparr> else s3))))
                else if ack_ready s1 = 0 then
                  (if TIMEOUT_TIME opt e (prod (prod_tbl s1) h) \<le> 0
                   then Inr (s1\<lparr>Flags := insert DISCONNECT_FLAG (Flags s1)\<rparr>)
                   else Inr s1)
                else Inr (s1\<lparr>Flags := insert DISCONNECT_FLAG (Flags s1)\<rparr>))
          else Inr (s\<lparr>pc := AtSleep\<rparr>)
      | None \<Rightarrow> Inr (s\<lparr>pc := AtSleep\<rparr>))"

text \<open>Lines 427 to 438: the sleep; only \<open>wait_time\<close> is written.\<close>

definition step_sleep :: "client_opt \<Rightarrow> env \<Rightarrow> send_state \<Rightarrow> fault + send_state" where
  "step_sleep opt e s =
     (if DISCONNECT_FLAG \<notin> Flags s \<and> (queue_len s \<le> 0 \<or> sock_fd s < 0) then
        (if connect_failures s > 3 \<or> input_failures s > 3
         then Inr (s\<lparr>wait_time := RECOVERY_SLEEP, pc := AtWhile\<rparr>)
         else if count (ack_list (prod_tbl s)) \<noteq> 0 then
           (case p_head (ack_list (prod_tbl s)) of
              None \<Rightarrow> Inl NullPointer
            | Some h \<Rightarrow>
                Inr (s\<lparr>wait_time :=
                         (if TIMEOUT_TIME opt e (prod (prod_tbl s) h) < poll_interval opt
                          then TIMEOUT_TIME opt e (prod (prod_tbl s) h) else poll_interval opt),
                       pc := AtWhile\<rparr>))
         else Inr (s\<lparr>wait_time := poll_interval opt, pc := AtWhile\<rparr>))
      else Inr (s\<lparr>pc := AtWhile\<rparr>))"

text \<open>One step: the signals of the environment first, then the block the label names.\<close>

definition step :: "client_opt \<Rightarrow> env \<Rightarrow> send_state \<Rightarrow> fault + send_state" where
  "step opt e s0 =
     (let s = s0\<lparr>Flags := Flags s0 \<union> signals e\<rparr>
      in case pc s of
           AtWhile \<Rightarrow> step_while opt e s
         | AtConnect \<Rightarrow> step_connect opt e s
         | AtRequeue \<Rightarrow> step_requeue opt e s
         | AtAcquire \<Rightarrow> step_acquire opt e s
         | AtTtl \<Rightarrow> step_ttl opt e s
         | AtSend \<Rightarrow> step_send opt e s
         | AtAckReady \<Rightarrow> step_ack_ready opt e s
         | AtAckLoop \<Rightarrow> step_ack_loop opt e s
         | AtSleep \<Rightarrow> step_sleep opt e s
         | AtExit \<Rightarrow> Inr s)"

text \<open>
  Lines 131 to 159: the state in which the loop is entered.  The table is zeroed, every
  slot is marked free and pushed on the free list (which leaves \<open>i = window_size\<close>, or 0
  for a \<open>window_size\<close> below 0), and a connection message is made when one is configured.
\<close>

definition init_tbl :: "client_opt \<Rightarrow> prod_tbl_t" where
  "init_tbl opt =
     fold (\<lambda>n t. push_tbl FreeL n (upd_slot n (\<lambda>x. x\<lparr>state := STATE_FREE\<rparr>) t))
       [0..<nat (window_size opt)]
       \<lparr>prod = (\<lambda>_. zero_prod), free_list = empty_list, ack_list = empty_list,
         retr_list = empty_list\<rparr>"

definition init_state :: "client_opt \<Rightarrow> env \<Rightarrow> send_state" where
  "init_state opt e =
     (let (t, c) = (if connect_wmo opt \<noteq> None then create_conn_msg opt e (init_tbl opt)
                    else (init_tbl opt, None))
      in \<lparr>pc = AtWhile, sock_fd = -1, prod_tbl = t, p_prod = c, p_connect = c,
           loop_i = max 0 (window_size opt), ack_ready = 0, wait_time = 0, connect_failures = 0,
           input_failures = 0, queue_len = 0, Flags = {}, ProdSeqno = 0, events = []\<rparr>)"


section \<open>Well-formed product tables\<close>

text \<open>
  \<open>chain h p xs\<close>: starting from the pointer \<open>p\<close> and following \<open>p_next\<close> in the store
  \<open>h\<close>, one meets exactly the slots \<open>xs\<close>, in this order, and then NULL.
\<close>

fun chain :: "(nat \<Rightarrow> prod_info_t) \<Rightarrow> prod_ptr \<Rightarrow> nat list \<Rightarrow> bool" where
  "chain h p [] = (p = None)"
| "chain h p (x # xs) = (p = Some x \<and> chain h (p_next (h x)) xs)"

text \<open>
  A list header describes the slots \<open>xs\<close>: its head starts a chain through \<open>xs\<close>, its
  count is their number, and its tail is the last of them (NULL when there is none).
\<close>

definition is_list :: "(nat \<Rightarrow> prod_info_t) \<Rightarrow> prod_list_t \<Rightarrow> nat list \<Rightarrow> bool" where
  "is_list h l xs =
     (chain h (p_head l) xs \<and> count l = int (length xs) \<and>
      p_tail l = (if xs = [] then None else Some (last xs)))"

text \<open>
  The list discipline of a table with the free, awaiting-ack and retry lists holding
  \<open>fs\<close>, \<open>as\<close> and \<open>rs\<close>: the three headers describe them, no slot occurs twice in them,
  and all of them are slots of the pool.
\<close>

definition tbl_inv ::
  "client_opt \<Rightarrow> prod_tbl_t \<Rightarrow> nat list \<Rightarrow> nat list \<Rightarrow> nat list \<Rightarrow> bool" where
  "tbl_inv opt t fs as rs =
     (is_list (prod t) (free_list t) fs \<and> is_list (prod t) (ack_list t) as \<and>
      is_list (prod t) (retr_list t) rs \<and> distinct (fs @ as @ rs) \<and>
      list_all (\<lambda>x. x < nat (window_size opt)) (fs @ as @ rs))"









text \<open>
  A run of the machine under a list of environments, one per step, stopping at a
  fault.
\<close>

fun run :: "client_opt \<Rightarrow> env list \<Rightarrow> send_state \<Rightarrow> fault + send_state" where
  "run opt [] s = Inr s"
| "run opt (e # es) s = (case step opt e s of Inl f \<Rightarrow> Inl f | Inr s' \<Rightarrow> run opt es s')"

text \<open>
  Environments for the examples: the server accepts the connection, the input queue
  always has the file \<open>/in/a\<close>, every send succeeds (as \<open>send_prod\<close> leaves the slot
  then: state sent, one attempt, sent at time 0) and no ack is ready.  In \<open>env_late\<close>
  the clock is past the ack timeout of a product sent at time 0, in \<open>env_wait\<close> it is
  not; in \<open>env_ack\<close> an ack with code \<open>K\<close> is ready and read.
\<close>

definition env_late :: env where
  "env_late = \<lparr>signals = {}, now = 1000, mkstemp_res = None, fdopen_ok = False, conn_size = 0,
     connect_res = 3, next_len = 1, next_filename = ''/in/a'', next_time = 900, next_size = 10,
     next_priority = 0, send_rc = 0,
     send_slot = zero_prod\<lparr>filename := ''/in/a'', queue_time := 900, prod_size := 10,
       state := STATE_SENT, send_count := 1, send_time := 0\<rparr>,
     send_flags = {}, send_seqno = 1, check_res = 0, recv_rc = 0, recv_code = ACK_OK,
     recv_flags = {}, rename_res = None\<rparr>"

definition env_wait :: env where
  "env_wait = env_late\<lparr>now := 0\<rparr>"

definition env_ack :: env where
  "env_ack = env_late\<lparr>now := 0, check_res := 1, rename_res := Some ''/sent/000''\<rparr>"

definition opt1 :: client_opt where "opt1 = dflt_opt\<lparr>window_size := 1\<rparr>"

definition opt2 :: client_opt where "opt2 = dflt_opt\<lparr>window_size := 2\<rparr>"

text \<open>
  A client with a connection message, and an environment in which \<open>create_conn_msg\<close>
  succeeds and every send fails on the socket (\<open>send_prod\<close> leaves the state retry and
  raises the disconnect flag).
\<close>

definition opt_conn :: client_opt where
  "opt_conn = dflt_opt\<lparr>window_size := 2, connect_wmo := Some ''NOXX99 KWBC''\<rparr>"

definition env_broken :: env where
  "env_broken = env_late\<lparr>mkstemp_res := Some ''/tmp/connAAAAAA'', fdopen_ok := True,
     conn_size := 60, send_rc := -1, send_flags := {DISCONNECT_FLAG},
     send_slot := zero_prod\<lparr>filename := ''/tmp/connAAAAAA'', queue_time := 1000, prod_size := 60,
       state := STATE_RETRY, send_count := 1, send_time := 1000\<rparr>\<rparr>"

text \<open>What the examples look at in the state a run ends in.\<close>

definition view ::
  "fault + send_state \<Rightarrow>
   (label \<times> prod_ptr \<times> int \<times> int \<times> int \<times> prod_ptr \<times> prod_ptr \<times> prod_ptr \<times> event list) option"
  where
  "view r =
     (case r of
        Inl f \<Rightarrow> None
      | Inr s \<Rightarrow>
          Some (pc s, p_prod s, count (free_list (prod_tbl s)), count (ack_list (prod_tbl s)),
                count (retr_list (prod_tbl s)), p_head (free_list (prod_tbl s)),
                p_head (ack_list (prod_tbl s)), p_head (retr_list (prod_tbl s)), events s))"

text \<open>The slot states and the lists, for the example of the ack step.\<close>

definition view_slots ::
  "fault + send_state \<Rightarrow>
   (label \<times> int \<times> char list \<times> prod_ptr \<times> prod_ptr \<times> prod_ptr \<times> event list) option" where
  "view_slots r =
     (case r of
        Inl f \<Rightarrow> None
      | Inr s \<Rightarrow>
          Some (pc s, loop_i s, map (\<lambda>n. state (prod (prod_tbl s) n)) [0, 1],
                p_head (ack_list (prod_tbl s)), p_tail (ack_list (prod_tbl s)),
                p_tail (free_list (prod_tbl s)), events s))"

section \<open>Facts about the model\<close>

lemmas state_defs = STATE_FREE_def STATE_QUEUED_def STATE_SENT_def STATE_ACKED_def
  STATE_NACKED_def STATE_RETRY_def STATE_FAILED_def STATE_DEAD_def

lemmas ack_defs = ACK_OK_def ACK_FAIL_def ACK_RETRY_def

section \<open>pop\_prod\<close>

text \<open>
  C9.  \<open>pop_prod\<close> on a list whose head pointer is NULL returns NULL and leaves the
  head, the tail and the count (and the whole store) unchanged.  On a list with a
  head it returns that head, makes the head's successor the new head, decrements the
  count by one, clears the popped slot's \<open>p_next\<close>, and sets the tail to NULL exactly
  when the new head is NULL, that is, when the list has become empty.
\<close>

theorem pop_prod_spec:
  "(p_head l = None \<longrightarrow> pop_prod h l = (h, l, None)) \<and>
   (\<forall>p. p_head l = Some p \<longrightarrow>
      (case pop_prod h l of (h', l', r) \<Rightarrow>
         r = Some p \<and>
         p_head l' = p_next (h p) \<and>
         count l' = count l - 1 \<and>
         p_tail l' = (if p_next (h p) = None then None else p_tail l) \<and>
         h' = h(p := (h p)\<lparr>p_next := None\<rparr>)))"
  by (simp add: pop_prod_def Let_def)

theorem pop_prod_spec_witness:
  "pop_prod (\<lambda>_. zero_prod) \<lparr>count = 0, p_head = None, p_tail = None\<rparr>
     = (\<lambda>_. zero_prod, \<lparr>count = 0, p_head = None, p_tail = None\<rparr>, None) \<and>
   (case pop_prod ((\<lambda>_. zero_prod)(0 := zero_prod\<lparr>p_next := Some 1\<rparr>))
           \<lparr>count = 2, p_head = Some 0, p_tail = Some 1\<rparr> of
      (h', l', r) \<Rightarrow>
        r = Some 0 \<and> p_head l' = Some 1 \<and> count l' = 1 \<and> p_tail l' = Some 1 \<and>
        p_next (h' 0) = None) \<and>
   (case pop_prod (\<lambda>_. zero_prod) \<lparr>count = 1, p_head = Some 0, p_tail = Some 0\<rparr> of
      (h', l', r) \<Rightarrow>
        r = Some 0 \<and> p_head l' = None \<and> count l' = 0 \<and> p_tail l' = None)"
  using pop_prod_spec [of "\<lparr>count = 0, p_head = None, p_tail = None\<rparr>" "\<lambda>_. zero_prod"]
    pop_prod_spec [of "\<lparr>count = 2, p_head = Some 0, p_tail = Some 1\<rparr>"
      "(\<lambda>_. zero_prod)(0 := zero_prod\<lparr>p_next := Some 1\<rparr>)"]
    pop_prod_spec [of "\<lparr>count = 1, p_head = Some 0, p_tail = Some 0\<rparr>" "\<lambda>_. zero_prod"]
  by (simp add: zero_prod_def split: prod.splits)

section \<open>my\_rename terminates\<close>

lemma my_rename_loop_second:
  "length (filter (\<lambda>c. c = SysRename) (snd (my_rename_loop e target k ENOENT))) \<le> 1"
  by (subst my_rename_loop.simps) (simp add: EXDEV_def ENOENT_def)

lemma my_rename_loop_calls:
  "length (filter (\<lambda>c. c = SysRename) (snd (my_rename_loop e target k lerr))) \<le> 2"
  using my_rename_loop_second [of e target "Suc k"]
  by (subst my_rename_loop.simps)
     (auto simp: EXDEV_def ENOENT_def split: option.splits prod.splits)

text \<open>
  C10.  \<open>my_rename\<close> is a total function of its environment (its definition above
  carries the termination proof), and its loop behaves as follows at the \<open>k\<close>-th call
  of \<open>rename\<close>: a failure with the same \<open>errno\<close> as the previous failure returns -1 at
  once; a failure with \<open>EXDEV\<close> calls \<open>my_copy\<close>, unlinks the source when the copy
  succeeded, and returns in that iteration (0 after a good copy, -1 after a failed one);
  a failure with any \<open>errno\<close> other than \<open>EXDEV\<close> and \<open>ENOENT\<close> returns -1 at once; a
  success returns 0.  Altogether \<open>my_rename\<close> calls \<open>rename\<close> at most twice.
\<close>

theorem my_rename_terminates:
  "(rename_rc e k < 0 \<and> rename_errno e k = lerr \<longrightarrow>
      my_rename_loop e target k lerr = (-1, [SysRename])) \<and>
   (rename_rc e k < 0 \<and> rename_errno e k \<noteq> lerr \<and> rename_errno e k = EXDEV \<longrightarrow>
      my_rename_loop e target k lerr =
        (if my_copy_rc e \<noteq> 0 then (-1, [SysRename, SysCopy])
         else (0, [SysRename, SysCopy, SysUnlink]))) \<and>
   (rename_rc e k < 0 \<and> rename_errno e k \<noteq> EXDEV \<and> rename_errno e k \<noteq> ENOENT \<longrightarrow>
      my_rename_loop e target k lerr = (-1, [SysRename])) \<and>
   (\<not> rename_rc e k < 0 \<longrightarrow> my_rename_loop e target k lerr = (0, [SysRename])) \<and>
   length (filter (\<lambda>c. c = SysRename) (snd (my_rename e target))) \<le> 2 \<and>
   fst (my_rename e target) \<in> {0, -1}"
proof -
  have two: "length (filter (\<lambda>c. c = SysRename) (snd (my_rename e target))) \<le> 2"
    unfolding my_rename_def by (rule my_rename_loop_calls)
  have snd_rc: "fst (my_rename_loop e target k' ENOENT) \<in> {0, -1}" for k'
    by (subst my_rename_loop.simps) (simp add: EXDEV_def ENOENT_def)
  have rc: "fst (my_rename e target) \<in> {0, -1}"
    unfolding my_rename_def using snd_rc [of "Suc 0"]
    by (subst my_rename_loop.simps)
       (auto simp: EXDEV_def ENOENT_def split: option.splits prod.splits)
  show ?thesis
    using two rc by (subst (1 2 3 4) my_rename_loop.simps) simp
qed

theorem my_rename_terminates_witness:
  "my_rename_loop \<lparr>rename_rc = \<lambda>_. -1, rename_errno = \<lambda>_. 2, my_copy_rc = 0, unlink_rc = 0,
       my_mkdir_rc = \<lambda>_. 0\<rparr> ''/sent/007'' 1 2 = (-1, [SysRename]) \<and>
   my_rename_loop \<lparr>rename_rc = \<lambda>_. -1, rename_errno = \<lambda>_. 18, my_copy_rc = 0, unlink_rc = 0,
       my_mkdir_rc = \<lambda>_. 0\<rparr> ''/sent/007'' 0 0 = (0, [SysRename, SysCopy, SysUnlink]) \<and>
   my_rename_loop \<lparr>rename_rc = \<lambda>_. -1, rename_errno = \<lambda>_. 13, my_copy_rc = 0, unlink_rc = 0,
       my_mkdir_rc = \<lambda>_. 0\<rparr> ''/sent/007'' 0 0 = (-1, [SysRename]) \<and>
   my_rename_loop \<lparr>rename_rc = \<lambda>_. 0, rename_errno = \<lambda>_. 0, my_copy_rc = 0, unlink_rc = 0,
       my_mkdir_rc = \<lambda>_. 0\<rparr> ''/sent/007'' 0 0 = (0, [SysRename]) \<and>
   length (filter (\<lambda>c. c = SysRename)
     (snd (my_rename \<lparr>rename_rc = \<lambda>_. -1, rename_errno = \<lambda>_. 2, my_copy_rc = 0, unlink_rc = 0,
       my_mkdir_rc = \<lambda>_. 0\<rparr> ''/sent/007''))) \<le> 2"
  using
    my_rename_terminates [of "\<lparr>rename_rc = \<lambda>_. -1, rename_errno = \<lambda>_. 2, my_copy_rc = 0,
       unlink_rc = 0, my_mkdir_rc = \<lambda>_. 0\<rparr>" 1 2 "''/sent/007''"]
    my_rename_terminates [of "\<lparr>rename_rc = \<lambda>_. -1, rename_errno = \<lambda>_. 18, my_copy_rc = 0,
       unlink_rc = 0, my_mkdir_rc = \<lambda>_. 0\<rparr>" 0 0 "''/sent/007''"]
    my_rename_terminates [of "\<lparr>rename_rc = \<lambda>_. -1, rename_errno = \<lambda>_. 13, my_copy_rc = 0,
       unlink_rc = 0, my_mkdir_rc = \<lambda>_. 0\<rparr>" 0 0 "''/sent/007''"]
    my_rename_terminates [of "\<lparr>rename_rc = \<lambda>_. 0, rename_errno = \<lambda>_. 0, my_copy_rc = 0,
       unlink_rc = 0, my_mkdir_rc = \<lambda>_. 0\<rparr>" 0 0 "''/sent/007''"]
  by (simp add: EXDEV_def ENOENT_def)

section \<open>Message header: formatting, parsing, validation\<close>

lemma isdigit_digit_char: "d < 10 \<Longrightarrow> isdigit (digit_char d)"
  by (simp add: isdigit_def digit_char_def)

lemma of_char_digit_char: "d < 10 \<Longrightarrow> (of_char (digit_char d) :: nat) = 48 + d"
  by (simp add: digit_char_def)

lemma dec_digits_digits: "c \<in> set (dec_digits n) \<Longrightarrow> isdigit c"
proof (induction n rule: dec_digits.induct)
  case (1 n)
  show ?case
  proof (cases "n < 10")
    case True
    with 1(2) show ?thesis
      by (subst (asm) dec_digits.simps) (simp add: isdigit_digit_char)
  next
    case False
    from 1(2) have "c \<in> set (dec_digits (n div 10)) \<or> c = digit_char (n mod 10)"
      by (subst (asm) dec_digits.simps) (auto simp: False)
    with 1(1) [OF False] show ?thesis
      by (auto simp: isdigit_digit_char)
  qed
qed

lemma dec_value_snoc: "dec_value (ds @ [c]) = 10 * dec_value ds + (of_char c - 48)"
  by (simp add: dec_value_def)

lemma dec_value_dec_digits: "dec_value (dec_digits n) = n"
proof (induction n rule: dec_digits.induct)
  case (1 n)
  show ?case
  proof (cases "n < 10")
    case True
    then show ?thesis
      by (subst dec_digits.simps) (simp add: dec_value_def of_char_digit_char)
  next
    case False
    with 1 show ?thesis
      by (subst dec_digits.simps) (simp add: dec_value_snoc of_char_digit_char)
  qed
qed

lemma dec_digits_nonempty: "dec_digits n \<noteq> []"
  by (subst dec_digits.simps) simp

lemma length_dec_digits: "length (dec_digits n) \<le> Suc v \<longleftrightarrow> n < 10 ^ Suc v"
proof (induction n arbitrary: v rule: dec_digits.induct)
  case (1 n)
  show ?case
  proof (cases "n < 10")
    case True
    have "(1::nat) \<le> 10 ^ v" by simp
    then have "(10::nat) * 1 \<le> 10 * 10 ^ v" by (rule mult_le_mono2)
    with True have "n < 10 ^ Suc v" unfolding power_Suc by linarith
    with True show ?thesis
      by (subst dec_digits.simps) simp
  next
    case False
    show ?thesis
    proof (cases v)
      case 0
      with False dec_digits_nonempty [of "n div 10"] show ?thesis
        by (subst dec_digits.simps) (simp add: Suc_le_eq)
    next
      case (Suc u)
      have "length (dec_digits (n div 10)) \<le> Suc u \<longleftrightarrow> n div 10 < 10 ^ Suc u"
        using 1 [OF False] .
      moreover have "n div 10 < 10 ^ Suc u \<longleftrightarrow> n < 10 ^ Suc (Suc u)"
        by (simp add: div_less_iff_less_mult mult.commute)
      ultimately show ?thesis using False Suc
        by (subst dec_digits.simps) simp
    qed
  qed
qed

lemma isdigit_not_space: "isdigit c \<Longrightarrow> \<not> isspace c"
  by (auto simp: isdigit_def isspace_def)

lemma isdigit_not_sign: "isdigit c \<Longrightarrow> c \<noteq> CHR ''-'' \<and> c \<noteq> CHR ''+''"
  by (auto simp: isdigit_def)

lemma isdigit_zero: "isdigit (CHR ''0'')"
  by (simp add: isdigit_def)

lemma dec_value_zeros: "dec_value (replicate k (CHR ''0'') @ ds) = dec_value ds"
  by (induction k) (simp_all add: dec_value_def)

lemma fmt_d_prec_nonneg:
  assumes "0 \<le> x" and "x < 10 ^ Suc v"
  shows "length (fmt_d_prec (Suc v) x) = Suc v"
    and "\<forall>c \<in> set (fmt_d_prec (Suc v) x). isdigit c"
    and "dec_value (fmt_d_prec (Suc v) x) = nat x"
proof -
  have "nat x < 10 ^ Suc v"
    using assms by (simp add: nat_less_iff)
  then have len: "length (dec_digits (nat x)) \<le> Suc v"
    by (simp only: length_dec_digits)
  show "length (fmt_d_prec (Suc v) x) = Suc v"
    using assms(1) len by (simp add: fmt_d_prec_def Let_def)
  show "\<forall>c \<in> set (fmt_d_prec (Suc v) x). isdigit c"
    using assms(1) by (auto simp: fmt_d_prec_def Let_def isdigit_zero dec_digits_digits)
  show "dec_value (fmt_d_prec (Suc v) x) = nat x"
    using assms(1) by (simp add: fmt_d_prec_def Let_def dec_value_zeros dec_value_dec_digits)
qed

lemma length_fmt_d_prec:
  "length (fmt_d_prec p x) =
     (if x < 0 then 1 else 0) + max p (length (dec_digits (nat \<bar>x\<bar>)))"
  by (auto simp: fmt_d_prec_def Let_def max_def)

lemma scan_d_digits:
  assumes "\<forall>c \<in> set ds. isdigit c" and "length ds = w" and "0 < w"
  shows "scan_d w (ds @ rest) = Some (int (dec_value ds), rest)"
proof -
  from assms obtain c cs where ds: "ds = c # cs" by (cases ds) auto
  with assms(1) have c: "isdigit c" by simp
  have ws: "skip_ws (ds @ rest) = ds @ rest"
    using c by (simp add: skip_ws_def ds isdigit_not_space)
  have tw: "takeWhile isdigit (take w (ds @ rest)) = ds"
    using assms(1,2) by (simp add: takeWhile_eq_all_conv)
  have dr: "drop (length ds) (ds @ rest) = rest" by simp
  show ?thesis
    unfolding scan_d_def ws
    using isdigit_not_sign [OF c] tw dr
    by (simp add: ds Let_def)
qed

lemma length_fmt_10:
  "length (fmt_d_prec 10 x) = 10 \<longleftrightarrow> 0 \<le> x \<and> x \<le> 9999999999"
proof (cases "x < 0")
  case True
  then show ?thesis by (simp add: length_fmt_d_prec)
next
  case False
  have "length (dec_digits (nat x)) \<le> Suc 9 \<longleftrightarrow> nat x < 10 ^ Suc 9"
    by (rule length_dec_digits)
  with False show ?thesis
    by (auto simp: length_fmt_d_prec max_def nat_less_iff)
qed

lemma header_text_length:
  assumes "1 \<le> prod_size p" "prod_size p \<le> MAX_PROD_SIZE"
      "0 \<le> seqno p" "seqno p \<le> MAX_PROD_SEQNO"
  shows "length (header_text p) = 32 \<longleftrightarrow> 0 \<le> queue_time p \<and> queue_time p \<le> 9999999999"
proof -
  have "length (fmt_d_prec (Suc 7) (int (PROD_HDR_LEN + prod_size p))) = Suc 7"
    using assms(1,2) by (intro fmt_d_prec_nonneg) (simp_all add: MAX_PROD_SIZE_def PROD_HDR_LEN_def)
  moreover have "length (fmt_d_prec (Suc 4) (seqno p)) = Suc 4"
    using assms(3,4) by (intro fmt_d_prec_nonneg) (simp_all add: MAX_PROD_SEQNO_def)
  ultimately show ?thesis
    using length_fmt_10 [of "queue_time p"] by (simp add: header_text_def) 
qed

text \<open>
  C8 (amended).  \<open>format_msghdr\<close> returns -1 and leaves the caller's buffer as it was
  exactly when the size is outside [1, 99999999-22], or the seqno is outside
  [0, 99999], or the queue time is outside [0, 9999999999] (the header text is then
  not 32 bytes long and the length check refuses it).  In every other case it returns
  32 and the buffer starts with the 10-byte message header followed by the 22-byte
  product header, the bytes after the first 32 unchanged.
\<close>

theorem format_msghdr_result:
  "format_msghdr buf p =
     (if prod_size p < 1 \<or> 99999999 - 22 < prod_size p \<or>
         seqno p < 0 \<or> 99999 < seqno p \<or>
         queue_time p < 0 \<or> 9999999999 < queue_time p
      then (-1, buf)
      else (32, msg_header p @ prod_header p @ drop 32 buf)) \<and>
   (if prod_size p < 1 \<or> 99999999 - 22 < prod_size p \<or>
         seqno p < 0 \<or> 99999 < seqno p \<or>
         queue_time p < 0 \<or> 9999999999 < queue_time p
      then True
      else length (msg_header p) = 10 \<and> length (prod_header p) = 22)"
proof (cases "prod_size p < 1 \<or> 99999999 - 22 < prod_size p \<or> seqno p < 0 \<or> 99999 < seqno p")
  case True
  then show ?thesis
    by (auto simp: format_msghdr_def MAX_PROD_SIZE_def PROD_HDR_LEN_def MAX_PROD_SEQNO_def)
next
  case False
  then have b: "1 \<le> prod_size p" "prod_size p \<le> MAX_PROD_SIZE"
      "0 \<le> seqno p" "seqno p \<le> MAX_PROD_SEQNO"
    by (simp_all add: MAX_PROD_SIZE_def PROD_HDR_LEN_def MAX_PROD_SEQNO_def)
  have l8: "length (fmt_d_prec (Suc 7) (int (PROD_HDR_LEN + prod_size p))) = Suc 7"
    using b(1,2) by (intro fmt_d_prec_nonneg) (simp_all add: MAX_PROD_SIZE_def PROD_HDR_LEN_def)
  have l5: "length (fmt_d_prec (Suc 4) (seqno p)) = Suc 4"
    using b(3,4) by (intro fmt_d_prec_nonneg) (simp_all add: MAX_PROD_SEQNO_def)
  have ht: "header_text p = msg_header p @ prod_header p"
    by (simp add: header_text_def msg_header_def prod_header_def)
  show ?thesis
  proof (cases "0 \<le> queue_time p \<and> queue_time p \<le> 9999999999")
    case True
    then have len: "length (header_text p) = 32"
      using header_text_length [OF b] by simp
    have "length (fmt_d_prec 10 (queue_time p)) = 10"
      using True by (simp add: length_fmt_10)
    then have lens: "length (msg_header p) = 10 \<and> length (prod_header p) = 22"
      using l8 l5 by (simp add: msg_header_def prod_header_def)
    have "format_msghdr buf p = (32, msg_header p @ prod_header p @ drop 32 buf)"
      using b len lens unfolding format_msghdr_def Let_def
      by (simp add: MSG_HDR_LEN_def PROD_HDR_LEN_def ht)
    with True False lens show ?thesis by auto
  next
    case qf: False
    then have len: "length (header_text p) \<noteq> 32"
      using header_text_length [OF b] by simp
    have "format_msghdr buf p = (-1, buf)"
      using b len unfolding format_msghdr_def Let_def
      by (simp add: MSG_HDR_LEN_def PROD_HDR_LEN_def)
    with qf show ?thesis by auto
  qed
qed

text \<open>
  The claim C8 as stated fails: a product inside the size and seqno bounds whose queue
  time has eleven digits is refused.
\<close>

theorem format_msghdr_queue_time_counterexample:
  "1 \<le> prod_size (zero_prod\<lparr>seqno := 7, prod_size := 100, queue_time := 10000000000\<rparr>) \<and>
   prod_size (zero_prod\<lparr>seqno := 7, prod_size := 100, queue_time := 10000000000\<rparr>) \<le> 99999999 - 22 \<and>
   0 \<le> seqno (zero_prod\<lparr>seqno := 7, prod_size := 100, queue_time := 10000000000\<rparr>) \<and>
   seqno (zero_prod\<lparr>seqno := 7, prod_size := 100, queue_time := 10000000000\<rparr>) \<le> 99999 \<and>
   format_msghdr (replicate 33 (CHR ''x''))
     (zero_prod\<lparr>seqno := 7, prod_size := 100, queue_time := 10000000000\<rparr>)
   = (-1, replicate 33 (CHR ''x''))"
proof -
  have "length (header_text (zero_prod\<lparr>seqno := 7, prod_size := 100, queue_time := 10000000000\<rparr>)) \<noteq> 32"
    using header_text_length [of "(zero_prod\<lparr>seqno := 7, prod_size := 100, queue_time := 10000000000\<rparr>)"]
    by (simp add: MAX_PROD_SIZE_def PROD_HDR_LEN_def MAX_PROD_SEQNO_def zero_prod_def)
  then show ?thesis
    by (simp add: format_msghdr_def Let_def MAX_PROD_SIZE_def PROD_HDR_LEN_def
        MAX_PROD_SEQNO_def MSG_HDR_LEN_def zero_prod_def)
qed

lemma isdigit_not_nul: "isdigit c \<Longrightarrow> c \<noteq> CHR 0x00"
  by (auto simp: isdigit_def)

lemma skip_ws_crlf_digits:
  assumes "\<forall>c \<in> set ds. isdigit c" and "ds \<noteq> []"
  shows "skip_ws ([CHR 0x0D, CHR 0x0D, CHR 0x0A] @ ds @ rest) = ds @ rest"
proof -
  from assms obtain c cs where ds: "ds = c # cs" by (cases ds) auto
  with assms(1) have "\<not> isspace c" by (simp add: isdigit_not_space)
  then show ?thesis by (simp add: skip_ws_def ds isspace_def)
qed

lemma sscanf_msghdr_digits:
  assumes d8: "\<forall>c \<in> set d8. isdigit c" "length d8 = 8"
      and d5: "\<forall>c \<in> set d5. isdigit c" "length d5 = 5"
      and d10: "\<forall>c \<in> set d10. isdigit c" "length d10 = 10"
  shows "sscanf_msghdr
           (d8 @ ''BI'' @ [CHR 0x01, CHR 0x0D, CHR 0x0D, CHR 0x0A] @ d5 @ d10 @
            [CHR 0x0D, CHR 0x0D, CHR 0x0A]) q
         = (4, int (dec_value d8),
            q\<lparr>seqno := int (dec_value d5), queue_time := int (dec_value d10)\<rparr>)"
proof -
  have s1: "scan_d 8 (d8 @ r) = Some (int (dec_value d8), r)" for r
    using d8 by (intro scan_d_digits) auto
  have s2: "scan_s 2 (''BI'' @ r) = Some (''BI'', r)" for r
    by (simp add: scan_s_def skip_ws_def isspace_def Let_def)
  have s3: "match_char (CHR 0x01) (CHR 0x01 # r) = Some r" for r
    by (simp add: match_char_def)
  have "d5 \<noteq> []" using d5(2) by auto
  then have s4: "skip_ws ([CHR 0x0D, CHR 0x0D, CHR 0x0A] @ d5 @ r) = d5 @ r" for r
    using d5(1) by (intro skip_ws_crlf_digits) auto
  have s5: "scan_d 5 (d5 @ r) = Some (int (dec_value d5), r)" for r
    using d5 by (intro scan_d_digits) auto
  have s6: "scan_d 10 (d10 @ r) = Some (int (dec_value d10), r)" for r
    using d10 by (intro scan_d_digits) auto
  have a1: "d8 @ ''BI'' @ [CHR 0x01, CHR 0x0D, CHR 0x0D, CHR 0x0A] @ d5 @ d10 @
              [CHR 0x0D, CHR 0x0D, CHR 0x0A]
            = d8 @ (''BI'' @ (CHR 0x01 #
                ([CHR 0x0D, CHR 0x0D, CHR 0x0A] @ d5 @ (d10 @ [CHR 0x0D, CHR 0x0D, CHR 0x0A]))))"
    by simp
  show ?thesis
    unfolding a1 sscanf_msghdr_def s1 option.case prod.case s2 s3 s4 s5 s6 ..
qed

lemma cstring_no_nul: "\<forall>c \<in> set s. c \<noteq> CHR 0x00 \<Longrightarrow> cstring s = s"
  by (simp add: cstring_def takeWhile_eq_all_conv)

text \<open>
  C1 (amended).  For a product with size in [1, MAX_PROD_SIZE], seqno in [0, 99999] and
  a queue time that is not negative and has at most ten decimal digits (0 to
  9999999999), \<open>format_msghdr\<close> succeeds with 32, and \<open>parse_msghdr\<close> on the buffer it
  filled, with \<open>buflen \<ge> 32\<close>, succeeds with 32 and stores exactly the original size,
  seqno and queue time.
\<close>

theorem msghdr_round_trip:
  assumes "1 \<le> prod_size p" and "prod_size p \<le> MAX_PROD_SIZE"
      and "0 \<le> seqno p" and "seqno p \<le> MAX_PROD_SEQNO"
      and "0 \<le> queue_time p" and "queue_time p \<le> 9999999999"
      and "32 \<le> buflen"
  shows "fst (format_msghdr buf p) = 32 \<and>
         parse_msghdr (snd (format_msghdr buf p)) buflen q =
           (32, q\<lparr>seqno := seqno p, queue_time := queue_time p, prod_size := prod_size p\<rparr>)"
proof -
  let ?d8 = "fmt_d_prec (Suc 7) (int (PROD_HDR_LEN + prod_size p))"
  let ?d5 = "fmt_d_prec (Suc 4) (seqno p)"
  let ?d10 = "fmt_d_prec (Suc 9) (queue_time p)"
  let ?hdr = "?d8 @ ''BI'' @ [CHR 0x01, CHR 0x0D, CHR 0x0D, CHR 0x0A] @ ?d5 @ ?d10 @
              [CHR 0x0D, CHR 0x0D, CHR 0x0A]"
  have d8: "length ?d8 = Suc 7" "\<forall>c \<in> set ?d8. isdigit c"
      "dec_value ?d8 = nat (int (PROD_HDR_LEN + prod_size p))"
    using assms(1,2)
    by (intro fmt_d_prec_nonneg; simp add: MAX_PROD_SIZE_def PROD_HDR_LEN_def)+
  have d5: "length ?d5 = Suc 4" "\<forall>c \<in> set ?d5. isdigit c" "dec_value ?d5 = nat (seqno p)"
    using assms(3,4) by (intro fmt_d_prec_nonneg; simp add: MAX_PROD_SEQNO_def)+
  have d10: "length ?d10 = Suc 9" "\<forall>c \<in> set ?d10. isdigit c"
      "dec_value ?d10 = nat (queue_time p)"
    using assms(5,6) by (intro fmt_d_prec_nonneg; simp)+
  define hdr where "hdr = ?hdr"
  have ht: "header_text p = hdr"
    by (simp add: header_text_def hdr_def)
  have len: "length hdr = 32"
    using d8(1) d5(1) d10(1) by (simp add: hdr_def)
  have fm: "format_msghdr buf p = (32, hdr @ drop 32 buf)"
    using assms(1-4) len unfolding format_msghdr_def Let_def ht
    by (simp add: MSG_HDR_LEN_def PROD_HDR_LEN_def)
  have nonul: "\<forall>c \<in> set hdr. c \<noteq> CHR 0x00"
    using d8(2) d5(2) d10(2) by (auto simp: hdr_def dest: isdigit_not_nul)
  have sc: "sscanf_msghdr hdr q =
      (4, int (dec_value ?d8), q\<lparr>seqno := int (dec_value ?d5), queue_time := int (dec_value ?d10)\<rparr>)"
    unfolding hdr_def
    using d8(1,2) d5(1,2) d10(1,2) by (intro sscanf_msghdr_digits) simp_all
  have wrap: "nat ((int (dec_value ?d8) - int PROD_HDR_LEN) mod 2 ^ 64) = prod_size p"
  proof -
    have m: "dec_value ?d8 = PROD_HDR_LEN + prod_size p"
      using d8(3) by (simp only: nat_int)
    have "(int (prod_size p)) mod 2 ^ 64 = int (prod_size p)"
      using assms(2) by (simp add: MAX_PROD_SIZE_def PROD_HDR_LEN_def)
    then show ?thesis
      unfolding m by simp
  qed
  have "parse_msghdr (hdr @ drop 32 buf) buflen q =
      (32, q\<lparr>seqno := seqno p, queue_time := queue_time p, prod_size := prod_size p\<rparr>)"
    using assms(3,5,7) wrap len d5(3) d10(3)
    unfolding parse_msghdr_def Let_def
    by (simp add: MSG_HDR_LEN_def PROD_HDR_LEN_def cstring_no_nul [OF nonul] sc)
  with fm show ?thesis by simp
qed

text \<open>
  C2.  For a received 32-byte header that parses, \<open>recv_msghdr\<close> returns -1 exactly when
  the parsed size is \<open>\<le> 0\<close> or greater than 99999999-22, or the parsed seqno differs from
  the expected one and is not 0; otherwise it returns 0.  In particular a parsed seqno
  of 0 passes the seqno check whatever seqno is expected.
\<close>

theorem recv_msghdr_validation:
  assumes "length recvbuf = 32" and "parse_msghdr recvbuf 32 p = (32, p1)"
  shows "recv_msghdr (32, recvbuf) seqno_exp p =
           (if prod_size p1 \<le> 0 \<or> 99999999 - 22 < prod_size p1 \<or>
               (seqno p1 \<noteq> seqno_exp \<and> seqno p1 \<noteq> 0)
            then (-1, p1) else (0, p1))"
  using assms(2)
  by (auto simp: recv_msghdr_def MAX_PROD_SIZE_def PROD_HDR_LEN_def)

lemma parse_example:
  "parse_msghdr (''00000122BI'' @ [CHR 0x01, CHR 0x0D, CHR 0x0D, CHR 0x0A] @
       ''000071118758478'' @ [CHR 0x0D, CHR 0x0D, CHR 0x0A]) 32 q
   = (32, q\<lparr>seqno := 7, queue_time := 1118758478, prod_size := 100\<rparr>)"
  by (simp add: parse_msghdr_def sscanf_msghdr_def scan_d_def scan_s_def match_char_def
      skip_ws_def cstring_def isspace_def isdigit_def dec_value_def Let_def MSG_HDR_LEN_def
      PROD_HDR_LEN_def)

theorem recv_msghdr_validation_witness:
  "recv_msghdr (32, ''00000122BI'' @ [CHR 0x01, CHR 0x0D, CHR 0x0D, CHR 0x0A] @
       ''000071118758478'' @ [CHR 0x0D, CHR 0x0D, CHR 0x0A]) 7
       zero_prod
   = (0, (zero_prod\<lparr>seqno := 7, queue_time := 1118758478, prod_size := 100\<rparr>)) \<and>
   recv_msghdr (32, ''00000122BI'' @ [CHR 0x01, CHR 0x0D, CHR 0x0D, CHR 0x0A] @
       ''000071118758478'' @ [CHR 0x0D, CHR 0x0D, CHR 0x0A]) 8
       zero_prod
   = (-1, (zero_prod\<lparr>seqno := 7, queue_time := 1118758478, prod_size := 100\<rparr>))"
  using
    recv_msghdr_validation [OF _ parse_example [of "zero_prod"],
      where seqno_exp = 7]
    recv_msghdr_validation [OF _ parse_example [of "zero_prod"],
      where seqno_exp = 8]
  by simp

theorem msghdr_round_trip_witness:
  "fst (format_msghdr (replicate 40 (CHR ''x''))
          (zero_prod\<lparr>seqno := 7, queue_time := 1118758478, prod_size := 100\<rparr>)) = 32 \<and>
   parse_msghdr (snd (format_msghdr (replicate 40 (CHR ''x''))
          (zero_prod\<lparr>seqno := 7, queue_time := 1118758478, prod_size := 100\<rparr>))) 32
        zero_prod
   = (32, (zero_prod\<lparr>seqno := 7, queue_time := 1118758478, prod_size := 100\<rparr>))"
  using msghdr_round_trip [of "(zero_prod\<lparr>seqno := 7, queue_time := 1118758478, prod_size := 100\<rparr>)" 32
      "replicate 40 (CHR ''x'')" "zero_prod"]
  by (simp add: MAX_PROD_SIZE_def PROD_HDR_LEN_def MAX_PROD_SEQNO_def)

text \<open>
  The claim C1 as stated fails for a negative queue time: \<open>queue_time\<close> is a signed
  \<open>time_t\<close>, -1 has one decimal digit, and \<open>%.10ld\<close> prints it as a minus sign and ten
  digits.  The header text is 33 bytes long, the length check of \<open>format_msghdr\<close> refuses
  it, and there is no header to parse.
\<close>

theorem msghdr_round_trip_negative_counterexample:
  "1 \<le> prod_size (zero_prod\<lparr>seqno := 7, prod_size := 100, queue_time := -1\<rparr>) \<and>
   prod_size (zero_prod\<lparr>seqno := 7, prod_size := 100, queue_time := -1\<rparr>) \<le> MAX_PROD_SIZE \<and>
   0 \<le> seqno (zero_prod\<lparr>seqno := 7, prod_size := 100, queue_time := -1\<rparr>) \<and>
   seqno (zero_prod\<lparr>seqno := 7, prod_size := 100, queue_time := -1\<rparr>) \<le> 99999 \<and>
   fmt_d_prec 10 (queue_time (zero_prod\<lparr>seqno := 7, prod_size := 100, queue_time := -1\<rparr>))
     = ''-0000000001'' \<and>
   length (header_text (zero_prod\<lparr>seqno := 7, prod_size := 100, queue_time := -1\<rparr>)) = 33 \<and>
   format_msghdr (replicate 40 (CHR ''x''))
     (zero_prod\<lparr>seqno := 7, prod_size := 100, queue_time := -1\<rparr>)
   = (-1, replicate 40 (CHR ''x''))"
proof -
  have c: "digit_char (Suc 0) = CHR ''1''"
    by code_simp
  have d: "dec_digits (Suc 0) = ''1''"
    by (subst dec_digits.simps) (simp add: c)
  have f: "fmt_d_prec 10 (- 1) = ''-0000000001''"
    by (simp add: fmt_d_prec_def d numeral_eq_Suc)
  have l8: "length (fmt_d_prec (Suc 7) (int (PROD_HDR_LEN + 100))) = Suc 7"
    by (intro fmt_d_prec_nonneg) (simp_all add: PROD_HDR_LEN_def)
  have l5: "length (fmt_d_prec (Suc 4) 7) = Suc 4"
    by (intro fmt_d_prec_nonneg) simp_all
  have len: "length (header_text (zero_prod\<lparr>seqno := 7, prod_size := 100, queue_time := -1\<rparr>)) = 33"
    using l8 l5 by (simp add: header_text_def f)
  show ?thesis
    using len
    by (simp add: format_msghdr_def Let_def MAX_PROD_SIZE_def PROD_HDR_LEN_def
        MAX_PROD_SEQNO_def MSG_HDR_LEN_def f)
qed
section \<open>Queue length cap\<close>

lemma chain_has_None: "chain_has h None f = Some False"
  by (subst chain_has.simps) simp

lemma check_window_empty: "check_window empty_tbl f = Some 0"
  by (simp add: check_window_def empty_tbl_def chain_has_None)

text \<open>
  C7.  The claim fails in the code when there is more than one input directory: with
  \<open>max_queue_len = 1\<close> and two directories holding one sendable file each, the refresh
  collects both files, one more than the cap.  The \<open>break\<close> leaves the loop over the
  entries of the first directory; the loop over the directories goes on.
\<close>

theorem queue_cap_exceeded:
  "max_queue_len (dflt_opt\<lparr>max_queue_len := 1\<rparr>) = 1 \<and>
   poll_queue (dflt_opt\<lparr>max_queue_len := 1\<rparr>) (\<lambda>_. True) empty_tbl
     [\<lparr>dir_name = ''/hi'', dir_entries = Some [file_a]\<rparr>,
      \<lparr>dir_name = ''/lo'', dir_entries = Some [file_b]\<rparr>]
   = Some (Inr [zero_prod\<lparr>filename := ''/hi/a'', queue_time := 100, prod_size := 10, priority := 1\<rparr>,
        zero_prod\<lparr>filename := ''/lo/b'', queue_time := 100, prod_size := 10, priority := 0\<rparr>])"
  by (simp add: poll_queue_def dflt_opt_def file_a_def file_b_def check_window_empty S_IFREG_def S_IFLNK_def
      PERM_MASK_def A_FEW_SECONDS_def)

section \<open>Queue sort order\<close>

lemma compare_items_sign:
  "(compare_items x y < 0 \<longleftrightarrow>
      priority y < priority x \<or> (priority x = priority y \<and> queue_time x < queue_time y)) \<and>
   (compare_items x y = 0 \<longleftrightarrow> priority x = priority y \<and> queue_time x = queue_time y) \<and>
   (0 < compare_items x y \<longleftrightarrow>
      priority x < priority y \<or> (priority x = priority y \<and> queue_time y < queue_time x))"
  by (auto simp: compare_items_def)

lemma compare_items_le:
  "compare_items x y \<le> 0 \<longleftrightarrow>
     priority y < priority x \<or> (priority x = priority y \<and> queue_time x \<le> queue_time y)"
  by (auto simp: compare_items_def)

lemma set_qsort_insert: "set (qsort_insert cmp x ys) = insert x (set ys)"
  by (induction ys) auto

lemma count_list_qsort_insert:
  "count_list (qsort_insert cmp x ys) z = count_list (x # ys) z"
  by (induction ys) auto

lemma count_list_qsort: "count_list (qsort cmp xs) z = count_list xs z"
  by (induction xs) (simp_all add: qsort_def count_list_qsort_insert)

lemma sorted_qsort_insert:
  assumes "sorted_wrt (\<lambda>a b. compare_items a b \<le> 0) ys"
  shows "sorted_wrt (\<lambda>a b. compare_items a b \<le> 0) (qsort_insert compare_items x ys)"
  using assms
proof (induction ys)
  case Nil
  show ?case by simp
next
  case (Cons y ys)
  show ?case
  proof (cases "compare_items x y \<le> 0")
    case True
    have "compare_items x z \<le> 0" if "z \<in> set ys" for z
    proof -
      from Cons.prems that have "compare_items y z \<le> 0" by simp
      with True show ?thesis unfolding compare_items_le by auto
    qed
    with True Cons.prems show ?thesis by simp
  next
    case False
    then have "compare_items y x \<le> 0" unfolding compare_items_le by auto
    with False Cons show ?thesis by (auto simp: set_qsort_insert)
  qed
qed

lemma sorted_qsort: "sorted_wrt (\<lambda>a b. compare_items a b \<le> 0) (qsort compare_items xs)"
  by (induction xs) (simp_all add: qsort_def sorted_qsort_insert)

lemma filter_qsort_insert:
  "filter (\<lambda>z. priority z = p \<and> queue_time z = q) (qsort_insert compare_items x ys) =
   filter (\<lambda>z. priority z = p \<and> queue_time z = q) (x # ys)"
  by (induction ys) (auto simp: compare_items_def)

lemma filter_qsort:
  "filter (\<lambda>z. priority z = p \<and> queue_time z = q) (qsort compare_items xs) =
   filter (\<lambda>z. priority z = p \<and> queue_time z = q) xs"
  by (induction xs) (simp_all add: qsort_def filter_qsort_insert)

text \<open>
  C6.  For every queue array, and so for every snapshot that a refresh of the poller
  produces, the queue after the sort is ordered by priority descending, then queue time
  (mtime) ascending; the sort is stable: for every priority and mtime, the entries that
  have them are in the order in which they were enumerated; the queue holds the
  enumerated entries, each as often as before; and \<open>compare_items\<close> is negative, zero or
  positive accordingly for every pair of entries.
\<close>

theorem queue_sort_order:
  "sorted_wrt (\<lambda>a b. priority b < priority a \<or>
                  (priority a = priority b \<and> queue_time a \<le> queue_time b)) (sort_queue queue) \<and>
   filter (\<lambda>z. priority z = p \<and> queue_time z = q) (sort_queue queue) =
     filter (\<lambda>z. priority z = p \<and> queue_time z = q) queue \<and>
   count_list (sort_queue queue) z = count_list queue z \<and>
   (compare_items x y < 0 \<longleftrightarrow>
      priority y < priority x \<or> (priority x = priority y \<and> queue_time x < queue_time y)) \<and>
   (compare_items x y = 0 \<longleftrightarrow> priority x = priority y \<and> queue_time x = queue_time y) \<and>
   (0 < compare_items x y \<longleftrightarrow>
      priority x < priority y \<or> (priority x = priority y \<and> queue_time y < queue_time x))"
proof -
  have "sorted_wrt (\<lambda>a b. priority b < priority a \<or>
                  (priority a = priority b \<and> queue_time a \<le> queue_time b)) (sort_queue queue)"
  proof (cases "1 < length queue")
    case True
    with sorted_qsort [of queue] show ?thesis
      by (simp add: sort_queue_def compare_items_le)
  next
    case False
    then have "length queue \<le> 1" by simp
    then show ?thesis
      by (cases queue) (auto simp: sort_queue_def le_Suc_eq)
  qed
  then show ?thesis
    using compare_items_sign [of x y]
    by (simp add: sort_queue_def filter_qsort count_list_qsort)
qed

text \<open>
  A refresh over three input directories, the first of which cannot be opened: the file
  of the last directory, \<open>/low\<close>, has the lowest priority and goes last, the files of \<open>/in\<close> are
  ordered by mtime, and the two of them with the same mtime stay in enumeration order.
\<close>

lemma sort_queue_example:
  "poll_queue dflt_opt (\<lambda>_. True) empty_tbl three_dirs
     = Some (Inr [item ''/in/a'' 100 1, item ''/in/b'' 100 1, item ''/in/c'' 50 1,
                  item ''/low/b'' 100 0]) \<and>
   sort_queue [item ''/in/a'' 100 1, item ''/in/b'' 100 1, item ''/in/c'' 50 1,
               item ''/low/b'' 100 0]
     = [item ''/in/c'' 50 1, item ''/in/a'' 100 1, item ''/in/b'' 100 1, item ''/low/b'' 100 0]"
  by (simp add: poll_queue_def dflt_opt_def three_dirs_def file_a_def file_b_def file_c_def
      item_def check_window_empty S_IFREG_def S_IFLNK_def PERM_MASK_def A_FEW_SECONDS_def
      sort_queue_def qsort_def compare_items_def)
section \<open>The product table under the send loop\<close>

lemma chain_cong:
  "(\<And>x. x \<in> set xs \<Longrightarrow> p_next (h' x) = p_next (h x)) \<Longrightarrow> chain h' p xs = chain h p xs"
  by (induction xs arbitrary: p) auto



lemma chain_snoc:
  assumes "chain h p (xs @ [t])" and "distinct (xs @ [t])" and "q \<notin> set (xs @ [t])"
  shows "chain (h(t := (h t)\<lparr>p_next := Some q\<rparr>, q := v\<lparr>p_next := None\<rparr>)) p (xs @ [t, q])"
  using assms
proof (induction xs arbitrary: p)
  case Nil
  then show ?case by auto
next
  case (Cons x xs)
  from Cons.prems have "chain h (p_next (h x)) (xs @ [t])" "distinct (xs @ [t])"
    "q \<notin> set (xs @ [t])" "p = Some x" "x \<noteq> t" "x \<noteq> q"
    by auto
  with Cons.IH [of "p_next (h x)"] show ?case by simp
qed

lemma is_list_push:
  assumes "is_list h l xs" and "distinct xs" and "p \<notin> set xs"
  shows "is_list (fst (push_prod h l p)) (snd (push_prod h l p)) (xs @ [p])"
proof (cases xs rule: rev_cases)
  case Nil
  with assms show ?thesis
    by (simp add: is_list_def push_prod_def)
next
  case (snoc ys t)
  with assms have tl: "p_tail l = Some t" and ch: "chain h (p_head l) (ys @ [t])"
    and cnt: "count l = int (length ys) + 1"
    by (simp_all add: is_list_def)
  have "chain (h(t := (h t)\<lparr>p_next := Some p\<rparr>, p := (h p)\<lparr>p_next := None\<rparr>)) (p_head l)
          (ys @ [t, p])"
    using ch assms(2,3) snoc by (intro chain_snoc) simp_all
  moreover have "t \<noteq> p" using assms(3) snoc by auto
  ultimately show ?thesis
    using tl cnt snoc by (simp add: is_list_def push_prod_def fun_upd_def)
qed

lemma push_prod_frame:
  assumes "is_list h l xs" and "y \<notin> set xs" and "y \<noteq> p"
  shows "fst (push_prod h l p) y = h y"
proof (cases xs rule: rev_cases)
  case Nil
  with assms show ?thesis by (simp add: is_list_def push_prod_def)
next
  case (snoc ys t)
  with assms show ?thesis by (auto simp: is_list_def push_prod_def)
qed

lemma push_prod_fields:
  "state (fst (push_prod h l p) y) = state (h y) \<and>
   filename (fst (push_prod h l p) y) = filename (h y)"
  by (simp add: push_prod_def split: option.splits)



lemma is_list_frame:
  "is_list h l xs \<Longrightarrow> (\<And>x. x \<in> set xs \<Longrightarrow> p_next (h' x) = p_next (h x)) \<Longrightarrow> is_list h' l xs"
  using chain_cong [of xs h' h "p_head l"] by (simp add: is_list_def)

lemma is_list_cong:
  "(\<And>x. x \<in> set xs \<Longrightarrow> p_next (h' x) = p_next (h x)) \<Longrightarrow> is_list h' l xs = is_list h l xs"
  using chain_cong [of xs h' h "p_head l"] by (simp add: is_list_def)

lemma prod_push_tbl: "prod (push_tbl k p t) = fst (push_prod (prod t) (get_list k t) p)"
  by (cases k) (simp_all add: push_tbl_def split: prod.splits)

lemma get_list_push_tbl:
  "get_list k' (push_tbl k p t) =
     (if k' = k then snd (push_prod (prod t) (get_list k t) p) else get_list k' t)"
  by (cases k; cases k') (simp_all add: push_tbl_def split: prod.splits)

lemma push_tbl_state: "state (prod (push_tbl k p t) y) = state (prod t y)"
  by (simp add: prod_push_tbl push_prod_fields)

lemma push_tbl_filename: "filename (prod (push_tbl k p t) y) = filename (prod t y)"
  by (simp add: prod_push_tbl push_prod_fields)

lemma tbl_inv_lists:
  "tbl_inv opt t fs as rs =
     (is_list (prod t) (get_list FreeL t) fs \<and> is_list (prod t) (get_list AckL t) as \<and>
      is_list (prod t) (get_list RetrL t) rs \<and> distinct (fs @ as @ rs) \<and>
      list_all (\<lambda>x. x < nat (window_size opt)) (fs @ as @ rs))"
  by (simp add: tbl_inv_def)

lemma is_list_push_other:
  assumes "is_list h l xs" and "is_list h l' ys" and "set ys \<inter> set xs = {}" and "p \<notin> set ys"
  shows "is_list (fst (push_prod h l p)) l' ys"
proof -
  have "p_next (fst (push_prod h l p) y) = p_next (h y)" if "y \<in> set ys" for y
  proof -
    from that assms(3,4) have "y \<notin> set xs" "y \<noteq> p" by auto
    then show ?thesis using push_prod_frame [OF assms(1), of y p] by simp
  qed
  then have "is_list (fst (push_prod h l p)) l' ys = is_list h l' ys"
    by (rule is_list_cong)
  with assms(2) show ?thesis by simp
qed

lemma tbl_inv_push_free:
  assumes "tbl_inv opt t fs as rs" and "p < nat (window_size opt)" and "p \<notin> set (fs @ as @ rs)"
  shows "tbl_inv opt (push_tbl FreeL p t) (fs @ [p]) as rs"
proof -
  let ?h = "fst (push_prod (prod t) (free_list t) p)"
  from assms have l: "is_list (prod t) (free_list t) fs" "is_list (prod t) (ack_list t) as"
      "is_list (prod t) (retr_list t) rs" and d: "distinct (fs @ as @ rs)"
    by (simp_all add: tbl_inv_def)
  have own: "is_list ?h (snd (push_prod (prod t) (free_list t) p)) (fs @ [p])"
    using d assms(3) by (intro is_list_push [OF l(1)]) auto
  have a: "is_list ?h (ack_list t) as"
    using d assms(3) by (intro is_list_push_other [OF l(1) l(2)]) auto
  have r: "is_list ?h (retr_list t) rs"
    using d assms(3) by (intro is_list_push_other [OF l(1) l(3)]) auto
  show ?thesis
    unfolding tbl_inv_lists
    using own a r d assms(2,3) assms(1)
    by (simp add: get_list_push_tbl prod_push_tbl tbl_inv_def)
qed

lemma tbl_inv_push_ack:
  assumes "tbl_inv opt t fs as rs" and "p < nat (window_size opt)" and "p \<notin> set (fs @ as @ rs)"
  shows "tbl_inv opt (push_tbl AckL p t) fs (as @ [p]) rs"
proof -
  let ?h = "fst (push_prod (prod t) (ack_list t) p)"
  from assms have l: "is_list (prod t) (free_list t) fs" "is_list (prod t) (ack_list t) as"
      "is_list (prod t) (retr_list t) rs" and d: "distinct (fs @ as @ rs)"
    by (simp_all add: tbl_inv_def)
  have own: "is_list ?h (snd (push_prod (prod t) (ack_list t) p)) (as @ [p])"
    using d assms(3) by (intro is_list_push [OF l(2)]) auto
  have a: "is_list ?h (free_list t) fs"
    using d assms(3) by (intro is_list_push_other [OF l(2) l(1)]) auto
  have r: "is_list ?h (retr_list t) rs"
    using d assms(3) by (intro is_list_push_other [OF l(2) l(3)]) auto
  show ?thesis
    unfolding tbl_inv_lists
    using own a r d assms(2,3) assms(1)
    by (simp add: get_list_push_tbl prod_push_tbl tbl_inv_def)
qed

lemma tbl_inv_push_retr:
  assumes "tbl_inv opt t fs as rs" and "p < nat (window_size opt)" and "p \<notin> set (fs @ as @ rs)"
  shows "tbl_inv opt (push_tbl RetrL p t) fs as (rs @ [p])"
proof -
  let ?h = "fst (push_prod (prod t) (retr_list t) p)"
  from assms have l: "is_list (prod t) (free_list t) fs" "is_list (prod t) (ack_list t) as"
      "is_list (prod t) (retr_list t) rs" and d: "distinct (fs @ as @ rs)"
    by (simp_all add: tbl_inv_def)
  have own: "is_list ?h (snd (push_prod (prod t) (retr_list t) p)) (rs @ [p])"
    using d assms(3) by (intro is_list_push [OF l(3)]) auto
  have a: "is_list ?h (free_list t) fs"
    using d assms(3) by (intro is_list_push_other [OF l(3) l(1)]) auto
  have r: "is_list ?h (ack_list t) as"
    using d assms(3) by (intro is_list_push_other [OF l(3) l(2)]) auto
  show ?thesis
    unfolding tbl_inv_lists
    using own a r d assms(2,3) assms(1)
    by (simp add: get_list_push_tbl prod_push_tbl tbl_inv_def)
qed


lemma tbl_inv_upd_slot_off:
  assumes "p \<notin> set (fs @ as @ rs)"
  shows "tbl_inv opt (upd_slot p f t) fs as rs = tbl_inv opt t fs as rs"
proof -
  have "is_list (prod (upd_slot p f t)) l xs = is_list (prod t) l xs" if "p \<notin> set xs" for l xs
    using that by (intro is_list_cong) (auto simp: upd_slot_def)
  with assms show ?thesis by (simp add: tbl_inv_def upd_slot_def)
qed





lemma upd_slot_state_next: "state (prod (upd_slot n (\<lambda>s. s\<lparr>p_next := v\<rparr>) t) k) = state (prod t k)"
  by (simp add: upd_slot_def)

lemma rebuild_slot_state: "state (prod (rebuild_slot n t) k) = state (prod t k)"
  by (simp add: rebuild_slot_def Let_def push_tbl_state upd_slot_state_next)

lemma state_distinct:
  "STATE_SENT \<noteq> STATE_QUEUED" "STATE_SENT \<noteq> STATE_RETRY"
  "STATE_QUEUED \<noteq> STATE_SENT" "STATE_RETRY \<noteq> STATE_SENT"
  by (simp_all add: STATE_SENT_def STATE_QUEUED_def STATE_RETRY_def)

lemma rebuild_slot_inv:
  assumes "tbl_inv opt t fs as rs" and "n < nat (window_size opt)" and "n \<notin> set (fs @ as @ rs)"
  shows "tbl_inv opt (rebuild_slot n t)
           (if state (prod t n) \<noteq> STATE_QUEUED \<and> state (prod t n) \<noteq> STATE_RETRY \<and>
               state (prod t n) \<noteq> STATE_SENT then fs @ [n] else fs)
           (if state (prod t n) = STATE_SENT then as @ [n] else as)
           (if state (prod t n) = STATE_QUEUED \<or> state (prod t n) = STATE_RETRY
            then rs @ [n] else rs)"
proof -
  let ?t1 = "upd_slot n (\<lambda>s. s\<lparr>p_next := None\<rparr>) t"
  have t1: "tbl_inv opt ?t1 fs as rs"
    using assms(1,3) by (simp add: tbl_inv_upd_slot_off)
  have st: "state (prod ?t1 n) = state (prod t n)"
    by (rule upd_slot_state_next)
  have ne: "STATE_SENT \<noteq> STATE_QUEUED" "STATE_SENT \<noteq> STATE_RETRY"
    by (simp_all add: STATE_SENT_def STATE_QUEUED_def STATE_RETRY_def)
  show ?thesis
    using tbl_inv_push_free [OF t1 assms(2,3)] tbl_inv_push_ack [OF t1 assms(2,3)]
      tbl_inv_push_retr [OF t1 assms(2,3)] ne
    by (auto simp: rebuild_slot_def Let_def st)
qed

lemma tbl_inv_empty:
  "tbl_inv opt (t\<lparr>free_list := empty_list, ack_list := empty_list, retr_list := empty_list\<rparr>)
     [] [] []"
  by (simp add: tbl_inv_def is_list_def empty_list_def)

lemma rebuild_fold:
  assumes "n \<le> nat (window_size opt)"
  shows "tbl_inv opt
           (fold rebuild_slot [0..<n]
              (t\<lparr>free_list := empty_list, ack_list := empty_list, retr_list := empty_list\<rparr>))
           (filter (\<lambda>n. state (prod t n) \<noteq> STATE_QUEUED \<and> state (prod t n) \<noteq> STATE_RETRY \<and>
                        state (prod t n) \<noteq> STATE_SENT) [0..<n])
           (filter (\<lambda>n. state (prod t n) = STATE_SENT) [0..<n])
           (filter (\<lambda>n. state (prod t n) = STATE_QUEUED \<or> state (prod t n) = STATE_RETRY) [0..<n])
         \<and> (\<forall>k. state (prod (fold rebuild_slot [0..<n]
              (t\<lparr>free_list := empty_list, ack_list := empty_list, retr_list := empty_list\<rparr>)) k)
               = state (prod t k))"
  using assms
proof (induction n)
  case 0
  show ?case using tbl_inv_empty [of opt t] by simp
next
  case (Suc n)
  let ?t0 = "t\<lparr>free_list := empty_list, ack_list := empty_list, retr_list := empty_list\<rparr>"
  let ?tn = "fold rebuild_slot [0..<n] ?t0"
  from Suc have ih: "tbl_inv opt ?tn
      (filter (\<lambda>n. state (prod t n) \<noteq> STATE_QUEUED \<and> state (prod t n) \<noteq> STATE_RETRY \<and>
                        state (prod t n) \<noteq> STATE_SENT) [0..<n])
      (filter (\<lambda>n. state (prod t n) = STATE_SENT) [0..<n])
      (filter (\<lambda>n. state (prod t n) = STATE_QUEUED \<or> state (prod t n) = STATE_RETRY) [0..<n])"
    and st: "\<And>k. state (prod ?tn k) = state (prod t k)"
    by simp_all
  have lt: "n < nat (window_size opt)" using Suc.prems by simp
  have off: "n \<notin> set (filter (\<lambda>n. state (prod t n) \<noteq> STATE_QUEUED \<and> state (prod t n) \<noteq> STATE_RETRY \<and>
                        state (prod t n) \<noteq> STATE_SENT) [0..<n] @
      filter (\<lambda>n. state (prod t n) = STATE_SENT) [0..<n] @
      filter (\<lambda>n. state (prod t n) = STATE_QUEUED \<or> state (prod t n) = STATE_RETRY) [0..<n])"
    by simp
  have "tbl_inv opt (rebuild_slot n ?tn)
      (filter (\<lambda>n. state (prod t n) \<noteq> STATE_QUEUED \<and> state (prod t n) \<noteq> STATE_RETRY \<and>
                        state (prod t n) \<noteq> STATE_SENT) [0..<Suc n])
      (filter (\<lambda>n. state (prod t n) = STATE_SENT) [0..<Suc n])
      (filter (\<lambda>n. state (prod t n) = STATE_QUEUED \<or> state (prod t n) = STATE_RETRY) [0..<Suc n])"
    using rebuild_slot_inv [OF ih lt off] by (auto simp: st state_distinct)
  then show ?case
    by (simp add: rebuild_slot_state st)
qed


lemma rebuild_lists_state: "state (prod (rebuild_lists opt t) k) = state (prod t k)"
  using rebuild_fold [of "nat (window_size opt)" opt t]
  by (simp add: rebuild_lists_def)































lemmas step_defs = step_def step_while_def step_connect_def step_requeue_def step_acquire_def
  step_ttl_def step_send_def step_ack_ready_def step_ack_loop_def step_sleep_def
  init_state_def init_tbl_def push_tbl_def pop_tbl_def push_prod_def pop_prod_def upd_slot_def
  empty_list_def env_late_def env_wait_def env_ack_def opt1_def opt2_def dflt_opt_def
  disconnect_flags_def TIMEOUT_TIME_def Let_def view_def numeral_eq_Suc

lemma run_append: "run opt (es @ fs) s = (case run opt es s of Inl f \<Rightarrow> Inl f | Inr s' \<Rightarrow> run opt fs s')"
  by (induction es arbitrary: s) (auto split: sum.splits)








section \<open>Ack window\<close>

lemma tbl_inv_counts:
  assumes "tbl_inv opt t fs as rs"
  shows "count (free_list t) + count (ack_list t) + count (retr_list t) = int (length (fs @ as @ rs))"
    and "length (fs @ as @ rs) \<le> nat (window_size opt)"
proof -
  from assms show "count (free_list t) + count (ack_list t) + count (retr_list t)
      = int (length (fs @ as @ rs))"
    by (simp add: tbl_inv_def is_list_def)
  from assms have d: "distinct (fs @ as @ rs)"
    and b: "set (fs @ as @ rs) \<subseteq> {..<nat (window_size opt)}"
    by (auto simp: tbl_inv_def list_all_iff)
  have "card (set (fs @ as @ rs)) \<le> card {..<nat (window_size opt)}"
    using b by (intro card_mono) auto
  with d show "length (fs @ as @ rs) \<le> nat (window_size opt)"
    by (simp add: distinct_card del: set_append)
qed







section \<open>List discipline of the product table\<close>




lemma pop_tbl_None: "pop_tbl k t = (t', None) \<Longrightarrow> t' = t"
  by (cases k) (auto simp: pop_tbl_def pop_prod_def Let_def split: option.splits prod.splits)




























text \<open>
  A step that lets go of a slot: with \<open>window_size = 2\<close> and a connection message whose send
  fails on the socket, the disconnect block finds the connection message (slot 0) in
  hand and overwrites \<open>p_prod\<close> with a new one made in slot 1.  Slot 0 is then on no list and
  not in hand.
\<close>

lemma conn_msg_slot_dropped:
  "view (run opt_conn (replicate 9 env_broken) (init_state opt_conn env_broken))
     = Some (AtWhile, Some 0, 1, 0, 0, Some 1, None, None, []) \<and>
   view (run opt_conn (replicate 10 env_broken) (init_state opt_conn env_broken))
     = Some (AtConnect, Some 1, 0, 0, 0, None, None, None, [])"
  by (simp add: step_defs opt_conn_def env_broken_def create_conn_msg_def STATE_RETRY_def
      STATE_FAILED_def)

section \<open>Ack processing writes a slot it does not own\<close>

text \<open>
  C5.  The claim fails in the code.  With \<open>window_size = 2\<close>: a product is sent from slot
  0, its ack times out, and the reconnect moves it to the retry list, which leaves
  \<open>i = 1\<close>.  Slot 0 is sent again and a second product is sent from slot 1; both await
  their acks.  The ack \<open>K\<close> for slot 0 then sets slot 0 to acked, moves its file and puts
  the slot on the free list, as claimed; but \<open>prod_tbl.prod[i].state = STATE_FREE\<close> writes
  slot 1, which is still awaiting its ack: its state changes from sent to free, and
  slot 0 is never marked free.
\<close>

theorem ack_frame_violated:
  "view_slots (run opt2 (replicate 18 env_late @ replicate 9 env_wait) (init_state opt2 env_late))
     = Some (AtAckLoop, 1, [STATE_SENT, STATE_SENT], Some 0, Some 1, None, []) \<and>
   view_slots (run opt2 (replicate 18 env_late @ replicate 9 env_wait @ [env_ack])
       (init_state opt2 env_late))
     = Some (AtAckLoop, 1, [STATE_ACKED, STATE_FREE], Some 1, Some 1, Some 0, [FinishSend 0])"
  by (simp add: step_defs view_slots_def ACK_OK_def free_slot_i_def ack_switch_def
      disposition_def)

end
